theory Spec2Isabelle
  imports Main "HOL-Library.Word" "HOL-Library.Signed_Division"
begin

section \<open>Procedural mesh generators of esShapes.c\<close>

text \<open>
  The three public functions of \<^verbatim>\<open>Common/Source/esShapes.c\<close> (\<^verbatim>\<open>esGenSphere\<close>,
  \<^verbatim>\<open>esGenCube\<close>, \<^verbatim>\<open>esGenArrow\<close>) are embedded as HOL functions.  What C leaves
  implicit is written out:
  \<^item> \<^verbatim>\<open>int\<close> is a 32-bit signed integer; an arithmetic result outside its range is
    undefined behaviour and becomes the fault \<open>SignedOverflow\<close>;
  \<^item> \<^verbatim>\<open>GLuint\<close> is a 32-bit word;
  \<^item> \<^verbatim>\<open>GLfloat\<close> is an IEEE 754 binary32 number; every operation rounds its exact
    result to binary32, to nearest with ties to even (\<^verbatim>\<open>FLT_EVAL_METHOD\<close> 0);
    \<^verbatim>\<open>sinf\<close> and \<^verbatim>\<open>cosf\<close> come from the C library and are parameters;
  \<^item> an output parameter \<^verbatim>\<open>T **p\<close> is either the null pointer or the address of a
    variable of the caller holding a \<^verbatim>\<open>T *\<close>; the variables behind different
    parameters are distinct.  A \<^verbatim>\<open>T *\<close> is null or points to a heap array whose
    cells are indeterminate until written;
  \<^item> \<^verbatim>\<open>malloc\<close> succeeds (the source does not test its result), and \<^verbatim>\<open>size_t\<close>
    is wide enough for the byte counts.
\<close>

subsection \<open>Faults and results\<close>

datatype fault = SignedOverflow | NullDeref | OutOfBounds

type_synonym 'a result = "fault + 'a"

definition bindR :: "'a result \<Rightarrow> ('a \<Rightarrow> 'b result) \<Rightarrow> 'b result" where
  "bindR r f = (case r of Inl e \<Rightarrow> Inl e | Inr x \<Rightarrow> f x)"

subsection \<open>The C type int\<close>

definition INT_MAX :: int where
  "INT_MAX = 2147483647"

definition INT_MIN :: int where
  "INT_MIN = - 2147483648"

definition cint :: "int \<Rightarrow> int result" where
  "cint x = (if INT_MIN \<le> x \<and> x \<le> INT_MAX then Inr x else Inl SignedOverflow)"

definition add_int :: "int \<Rightarrow> int \<Rightarrow> int result" where
  "add_int a b = cint (a + b)"

definition sub_int :: "int \<Rightarrow> int \<Rightarrow> int result" where
  "sub_int a b = cint (a - b)"

definition mul_int :: "int \<Rightarrow> int \<Rightarrow> int result" where
  "mul_int a b = cint (a * b)"

text \<open>C division truncates towards zero; the divisors of the source are the constant 2.\<close>

definition div_int :: "int \<Rightarrow> int \<Rightarrow> int result" where
  "div_int a b = cint (a sdiv b)"

text \<open>
  \<^verbatim>\<open>for (i = lo; i < n; i++) body\<close>, where \<open>n\<close> does not change in the body.
\<close>

function for_lt :: "int \<Rightarrow> int \<Rightarrow> (int \<Rightarrow> 's \<Rightarrow> 's result) \<Rightarrow> 's \<Rightarrow> 's result" where
  "for_lt i n body s =
     (if i < n then
        (case body i s of
           Inl e \<Rightarrow> Inl e
         | Inr s' \<Rightarrow> (if i + 1 \<le> INT_MAX then for_lt (i + 1) n body s' else Inl SignedOverflow))
      else Inr s)"
  by pat_completeness auto
termination
  by (relation "measure (\<lambda>(i, n, body, s). nat (n - i))") auto

declare for_lt.simps [simp del]

subsection \<open>The type GLfloat: IEEE 754 binary32\<close>

text \<open>
  \<open>Finite sg m e\<close> is the number \<open>(-1)^sg * m * 2^e\<close>.  The results of the operations
  are in canonical form: \<open>m < 2^24\<close>, \<open>-149 \<le> e \<le> 104\<close>, and \<open>2^23 \<le> m\<close> unless
  \<open>e = -149\<close> (subnormal numbers and the two zeros).
\<close>

datatype f32 = Finite bool nat int | Infinity bool | NaN

fun bitlen :: "nat \<Rightarrow> nat" where
  "bitlen n = (if n = 0 then 0 else Suc (bitlen (n div 2)))"

declare bitlen.simps [simp del]

text \<open>
  The binary32 number nearest to \<open>(-1)^sg * (num / den) * 2^ex\<close>, ties to the even
  significand, overflow to infinity (for \<open>den > 0\<close>).
\<close>

definition round_to_f32 :: "bool \<Rightarrow> nat \<Rightarrow> nat \<Rightarrow> int \<Rightarrow> f32" where
  "round_to_f32 sg num den ex =
     (if num = 0 then Finite sg 0 (- 149)
      else
        let d = int (bitlen num) - int (bitlen den);
            lg = ex + (if den * 2 ^ nat d \<le> num * 2 ^ nat (- d) then d else d - 1);
            t = max (- 149) (lg - 23);
            N = num * 2 ^ nat (ex - t);
            D = den * 2 ^ nat (t - ex);
            q = N div D;
            r = N mod D;
            m = (if D < 2 * r \<or> (2 * r = D \<and> odd q) then q + 1 else q)
        in if m = 2 ^ 24 then (if 104 < t + 1 then Infinity sg else Finite sg (2 ^ 23) (t + 1))
           else (if 104 < t then Infinity sg else Finite sg m t))"

fun fneg :: "f32 \<Rightarrow> f32" where
  "fneg (Finite sg m e) = Finite (\<not> sg) m e"
| "fneg (Infinity sg) = Infinity (\<not> sg)"
| "fneg NaN = NaN"

fun fmul :: "f32 \<Rightarrow> f32 \<Rightarrow> f32" where
  "fmul (Finite a m e) (Finite b n f) = round_to_f32 (a \<noteq> b) (m * n) 1 (e + f)"
| "fmul (Finite a m e) (Infinity b) = (if m = 0 then NaN else Infinity (a \<noteq> b))"
| "fmul (Infinity a) (Finite b n f) = (if n = 0 then NaN else Infinity (a \<noteq> b))"
| "fmul (Infinity a) (Infinity b) = Infinity (a \<noteq> b)"
| "fmul NaN y = NaN"
| "fmul x NaN = NaN"

fun fdiv :: "f32 \<Rightarrow> f32 \<Rightarrow> f32" where
  "fdiv (Finite a m e) (Finite b n f) =
     (if n = 0 then (if m = 0 then NaN else Infinity (a \<noteq> b))
      else round_to_f32 (a \<noteq> b) m n (e - f))"
| "fdiv (Finite a m e) (Infinity b) = Finite (a \<noteq> b) 0 (- 149)"
| "fdiv (Infinity a) (Finite b n f) = Infinity (a \<noteq> b)"
| "fdiv (Infinity a) (Infinity b) = NaN"
| "fdiv NaN y = NaN"
| "fdiv x NaN = NaN"

fun fadd :: "f32 \<Rightarrow> f32 \<Rightarrow> f32" where
  "fadd (Finite a m e) (Finite b n f) =
     (let t = min e f;
          x = (if a then - int m else int m) * 2 ^ nat (e - t)
            + (if b then - int n else int n) * 2 ^ nat (f - t)
      in if x = 0 then Finite (a \<and> b) 0 (- 149)
         else round_to_f32 (x < 0) (nat \<bar>x\<bar>) 1 t)"
| "fadd (Finite a m e) (Infinity b) = Infinity b"
| "fadd (Infinity a) (Finite b n f) = Infinity a"
| "fadd (Infinity a) (Infinity b) = (if a = b then Infinity a else NaN)"
| "fadd NaN y = NaN"
| "fadd x NaN = NaN"

declare fmul.simps [simp del] fdiv.simps [simp del] fadd.simps [simp del]

definition fsub :: "f32 \<Rightarrow> f32 \<Rightarrow> f32" where
  "fsub x y = fadd x (fneg y)"

text \<open>The conversion \<^verbatim>\<open>(float) i\<close> and an unsigned decimal literal \<^verbatim>\<open>num/den\<close>.\<close>

definition f32_of_int :: "int \<Rightarrow> f32" where
  "f32_of_int i = round_to_f32 (i < 0) (nat \<bar>i\<bar>) 1 0"

definition f32_lit :: "nat \<Rightarrow> nat \<Rightarrow> f32" where
  "f32_lit num den = round_to_f32 False num den 0"

text \<open>The two functions of \<^verbatim>\<open>math.h\<close> that the sphere generator calls.\<close>

record libm =
  sinf :: "f32 \<Rightarrow> f32"
  cosf :: "f32 \<Rightarrow> f32"

subsection \<open>Pointers, heap arrays and output parameters\<close>

text \<open>
  A value of type \<^verbatim>\<open>T *\<close>: the null pointer, or a pointer to the first cell of a
  heap array.  A cell is \<open>None\<close> while its value is indeterminate (\<^verbatim>\<open>malloc\<close> does
  not initialise); arithmetic on an indeterminate value gives an indeterminate value.
\<close>

datatype 'a pointer = NULL | Array "'a option list"

text \<open>
  A parameter of type \<^verbatim>\<open>T **\<close>: \<open>None\<close> is the null pointer, \<open>Some p\<close> the address
  of a variable of the caller that holds \<open>p\<close>.
\<close>

type_synonym 'a out = "'a pointer option"

definition malloc :: "nat \<Rightarrow> 'a pointer" where
  "malloc n = Array (replicate n None)"

text \<open>\<^verbatim>\<open>(*p)[k]\<close> as a value and \<^verbatim>\<open>(*p)[k] = v\<close>.\<close>

definition load :: "'a out \<Rightarrow> int \<Rightarrow> 'a option result" where
  "load p k =
     (case p of
        None \<Rightarrow> Inl NullDeref
      | Some NULL \<Rightarrow> Inl NullDeref
      | Some (Array xs) \<Rightarrow> if 0 \<le> k \<and> nat k < length xs then Inr (xs ! nat k) else Inl OutOfBounds)"

definition store :: "'a out \<Rightarrow> int \<Rightarrow> 'a option \<Rightarrow> 'a out result" where
  "store p k v =
     (case p of
        None \<Rightarrow> Inl NullDeref
      | Some NULL \<Rightarrow> Inl NullDeref
      | Some (Array xs) \<Rightarrow>
          if 0 \<le> k \<and> nat k < length xs then Inr (Some (Array (xs[nat k := v]))) else Inl OutOfBounds)"

text \<open>\<^verbatim>\<open>memcpy (*p, tbl, sizeof (tbl))\<close> for a local table \<open>tbl\<close>.\<close>

definition memcpy :: "'a out \<Rightarrow> 'a list \<Rightarrow> 'a out result" where
  "memcpy p tbl =
     (case p of
        None \<Rightarrow> Inl NullDeref
      | Some NULL \<Rightarrow> Inl NullDeref
      | Some (Array xs) \<Rightarrow>
          if length tbl \<le> length xs then Inr (Some (Array (map Some tbl @ drop (length tbl) xs)))
          else Inl OutOfBounds)"

text \<open>The output parameters of \<^verbatim>\<open>esGenSphere\<close> and \<^verbatim>\<open>esGenCube\<close>; \<^verbatim>\<open>esGenArrow\<close> has \<^verbatim>\<open>colors\<close> too.\<close>

record mesh =
  vertices :: "f32 out"
  normals :: "f32 out"
  texCoords :: "f32 out"
  indices :: "32 word out"

record arrow_mesh = mesh +
  colors :: "f32 out"

definition put_vertices :: "int \<Rightarrow> f32 option \<Rightarrow> 'z mesh_scheme \<Rightarrow> 'z mesh_scheme result" where
  "put_vertices k v s = bindR (store (vertices s) k v) (\<lambda>p. Inr (s\<lparr>vertices := p\<rparr>))"

definition put_normals :: "int \<Rightarrow> f32 option \<Rightarrow> 'z mesh_scheme \<Rightarrow> 'z mesh_scheme result" where
  "put_normals k v s = bindR (store (normals s) k v) (\<lambda>p. Inr (s\<lparr>normals := p\<rparr>))"

definition put_texCoords :: "int \<Rightarrow> f32 option \<Rightarrow> 'z mesh_scheme \<Rightarrow> 'z mesh_scheme result" where
  "put_texCoords k v s = bindR (store (texCoords s) k v) (\<lambda>p. Inr (s\<lparr>texCoords := p\<rparr>))"

definition put_indices :: "int \<Rightarrow> 32 word option \<Rightarrow> 'z mesh_scheme \<Rightarrow> 'z mesh_scheme result" where
  "put_indices k v s = bindR (store (indices s) k v) (\<lambda>p. Inr (s\<lparr>indices := p\<rparr>))"

text \<open>\<^verbatim>\<open>memcpy\<close> into the array behind each output parameter.\<close>

definition copy_vertices :: "f32 list \<Rightarrow> 'z mesh_scheme \<Rightarrow> 'z mesh_scheme result" where
  "copy_vertices tbl s = bindR (memcpy (vertices s) tbl) (\<lambda>p. Inr (s\<lparr>vertices := p\<rparr>))"

definition copy_normals :: "f32 list \<Rightarrow> 'z mesh_scheme \<Rightarrow> 'z mesh_scheme result" where
  "copy_normals tbl s = bindR (memcpy (normals s) tbl) (\<lambda>p. Inr (s\<lparr>normals := p\<rparr>))"

definition copy_texCoords :: "f32 list \<Rightarrow> 'z mesh_scheme \<Rightarrow> 'z mesh_scheme result" where
  "copy_texCoords tbl s = bindR (memcpy (texCoords s) tbl) (\<lambda>p. Inr (s\<lparr>texCoords := p\<rparr>))"

definition copy_indices :: "32 word list \<Rightarrow> 'z mesh_scheme \<Rightarrow> 'z mesh_scheme result" where
  "copy_indices tbl s = bindR (memcpy (indices s) tbl) (\<lambda>p. Inr (s\<lparr>indices := p\<rparr>))"

definition copy_colors :: "f32 list \<Rightarrow> arrow_mesh \<Rightarrow> arrow_mesh result" where
  "copy_colors tbl s = bindR (memcpy (colors s) tbl) (\<lambda>p. Inr (s\<lparr>colors := p\<rparr>))"

subsection \<open>esGenSphere\<close>

definition ES_PI :: f32 where
  "ES_PI = f32_lit 314159265 100000000"

text \<open>The three assignments under \<^verbatim>\<open>if ( vertices )\<close>.\<close>

definition sphere_position ::
  "libm \<Rightarrow> f32 \<Rightarrow> f32 \<Rightarrow> int \<Rightarrow> int \<Rightarrow> int \<Rightarrow> mesh \<Rightarrow> mesh result" where
  "sphere_position lm radius angleStep i j vertex s =
     bindR (add_int vertex 0) (\<lambda>k0.
     bindR (put_vertices k0
              (Some (fmul (fmul radius (sinf lm (fmul angleStep (f32_of_int i))))
                          (sinf lm (fmul angleStep (f32_of_int j))))) s) (\<lambda>s.
     bindR (add_int vertex 1) (\<lambda>k1.
     bindR (put_vertices k1
              (Some (fmul radius (cosf lm (fmul angleStep (f32_of_int i))))) s) (\<lambda>s.
     bindR (add_int vertex 2) (\<lambda>k2.
     put_vertices k2
              (Some (fmul (fmul radius (sinf lm (fmul angleStep (f32_of_int i))))
                          (cosf lm (fmul angleStep (f32_of_int j))))) s)))))"

text \<open>The three assignments under \<^verbatim>\<open>if ( normals )\<close>: they read \<^verbatim>\<open>(*vertices)\<close>.\<close>

definition sphere_normal :: "f32 \<Rightarrow> int \<Rightarrow> mesh \<Rightarrow> mesh result" where
  "sphere_normal radius vertex s =
     bindR (add_int vertex 0) (\<lambda>k0.
     bindR (load (vertices s) k0) (\<lambda>x.
     bindR (put_normals k0 (map_option (\<lambda>p. fdiv p radius) x) s) (\<lambda>s.
     bindR (add_int vertex 1) (\<lambda>k1.
     bindR (load (vertices s) k1) (\<lambda>y.
     bindR (put_normals k1 (map_option (\<lambda>p. fdiv p radius) y) s) (\<lambda>s.
     bindR (add_int vertex 2) (\<lambda>k2.
     bindR (load (vertices s) k2) (\<lambda>z.
     put_normals k2 (map_option (\<lambda>p. fdiv p radius) z) s))))))))"

text \<open>The block under \<^verbatim>\<open>if ( texCoords )\<close>.\<close>

definition sphere_texcoord :: "int \<Rightarrow> int \<Rightarrow> int \<Rightarrow> int \<Rightarrow> mesh \<Rightarrow> mesh result" where
  "sphere_texcoord numSlices numParallels i j s =
     bindR (add_int numSlices 1) (\<lambda>w.
     bindR (mul_int i w) (\<lambda>r.
     bindR (add_int r j) (\<lambda>v.
     bindR (mul_int v 2) (\<lambda>texIndex.
     bindR (add_int texIndex 0) (\<lambda>k0.
     bindR (put_texCoords k0 (Some (fdiv (f32_of_int j) (f32_of_int numSlices))) s) (\<lambda>s.
     bindR (add_int texIndex 1) (\<lambda>k1.
     bindR (sub_int numParallels 1) (\<lambda>d.
     put_texCoords k1
       (Some (fdiv (fsub (f32_lit 1 1) (f32_of_int i)) (f32_of_int d))) s))))))))"

text \<open>The body of the inner loop over the vertex grid.\<close>

definition sphere_vertex ::
  "libm \<Rightarrow> int \<Rightarrow> int \<Rightarrow> f32 \<Rightarrow> f32 \<Rightarrow> int \<Rightarrow> int \<Rightarrow> mesh \<Rightarrow> mesh result" where
  "sphere_vertex lm numSlices numParallels radius angleStep i j s =
     bindR (add_int numSlices 1) (\<lambda>w.
     bindR (mul_int i w) (\<lambda>r.
     bindR (add_int r j) (\<lambda>v.
     bindR (mul_int v 3) (\<lambda>vertex.
     bindR (if vertices s \<noteq> None then sphere_position lm radius angleStep i j vertex s
            else Inr s) (\<lambda>s.
     bindR (if normals s \<noteq> None then sphere_normal radius vertex s else Inr s) (\<lambda>s.
     if texCoords s \<noteq> None then sphere_texcoord numSlices numParallels i j s else Inr s))))))"

text \<open>
  \<^verbatim>\<open>*indexBuf++ = v\<close>: \<^verbatim>\<open>indexBuf\<close> starts as a copy of \<^verbatim>\<open>*indices\<close>, so it points into
  the array behind \<^verbatim>\<open>*indices\<close>; the state carries its offset.
\<close>

definition emit :: "int \<Rightarrow> nat \<times> mesh \<Rightarrow> (nat \<times> mesh) result" where
  "emit v ks =
     bindR (put_indices (int (fst ks)) (Some (word_of_int v)) (snd ks)) (\<lambda>s.
     Inr (Suc (fst ks), s))"

text \<open>The expression \<^verbatim>\<open>a * ( numSlices + 1 ) + b\<close>.\<close>

definition row_major :: "int \<Rightarrow> int \<Rightarrow> int \<Rightarrow> int result" where
  "row_major numSlices a b =
     bindR (add_int numSlices 1) (\<lambda>w.
     bindR (mul_int a w) (\<lambda>r.
     add_int r b))"

text \<open>The body of the inner loop over the grid cells: the six assignments of two triangles.\<close>

definition sphere_cell :: "int \<Rightarrow> int \<Rightarrow> int \<Rightarrow> nat \<times> mesh \<Rightarrow> (nat \<times> mesh) result" where
  "sphere_cell numSlices i j ks =
     bindR (row_major numSlices i j) (\<lambda>v.
     bindR (emit v ks) (\<lambda>ks.
     bindR (add_int i 1) (\<lambda>i1.
     bindR (row_major numSlices i1 j) (\<lambda>v.
     bindR (emit v ks) (\<lambda>ks.
     bindR (add_int i 1) (\<lambda>i1.
     bindR (add_int j 1) (\<lambda>j1.
     bindR (row_major numSlices i1 j1) (\<lambda>v.
     bindR (emit v ks) (\<lambda>ks.
     bindR (row_major numSlices i j) (\<lambda>v.
     bindR (emit v ks) (\<lambda>ks.
     bindR (add_int i 1) (\<lambda>i1.
     bindR (add_int j 1) (\<lambda>j1.
     bindR (row_major numSlices i1 j1) (\<lambda>v.
     bindR (emit v ks) (\<lambda>ks.
     bindR (add_int j 1) (\<lambda>j1.
     bindR (row_major numSlices i j1) (\<lambda>v.
     emit v ks)))))))))))))))))"

text \<open>
  The block under \<^verbatim>\<open>// Allocate memory for buffers\<close>.  The element count of an
  allocation is its byte count divided by the element size.
\<close>

definition sphere_alloc :: "int \<Rightarrow> int \<Rightarrow> mesh \<Rightarrow> mesh" where
  "sphere_alloc numVertices numIndices s =
     (let s = (if vertices s \<noteq> None then s\<lparr>vertices := Some (malloc (3 * nat numVertices))\<rparr> else s);
          s = (if normals s \<noteq> None then s\<lparr>normals := Some (malloc (3 * nat numVertices))\<rparr> else s);
          s = (if texCoords s \<noteq> None then s\<lparr>texCoords := Some (malloc (2 * nat numVertices))\<rparr> else s);
          s = (if indices s \<noteq> None then s\<lparr>indices := Some (malloc (nat numIndices))\<rparr> else s)
      in s)"

text \<open>
  The function.  The loop bounds \<^verbatim>\<open>numParallels + 1\<close> and \<^verbatim>\<open>numSlices + 1\<close> are
  evaluated once, since the loops do not change them.
\<close>

definition esGenSphere :: "libm \<Rightarrow> int \<Rightarrow> f32 \<Rightarrow> mesh \<Rightarrow> (int \<times> mesh) result" where
  "esGenSphere lm numSlices radius s =
     bindR (div_int numSlices 2) (\<lambda>numParallels.
     bindR (add_int numParallels 1) (\<lambda>p1.
     bindR (add_int numSlices 1) (\<lambda>w.
     bindR (mul_int p1 w) (\<lambda>numVertices.
     bindR (mul_int numParallels numSlices) (\<lambda>ps.
     bindR (mul_int ps 6) (\<lambda>numIndices.
     let angleStep = fdiv (fmul (f32_lit 2 1) ES_PI) (f32_of_int numSlices);
         s = sphere_alloc numVertices numIndices s
     in
     bindR (for_lt 0 p1 (\<lambda>i. for_lt 0 w
              (\<lambda>j. sphere_vertex lm numSlices numParallels radius angleStep i j)) s) (\<lambda>s.
     bindR (if indices s \<noteq> None then
              bindR (for_lt 0 numParallels (\<lambda>i. for_lt 0 numSlices
                       (\<lambda>j. sphere_cell numSlices i j)) (0, s)) (\<lambda>ks. Inr (snd ks))
            else Inr s) (\<lambda>s.
     Inr (numIndices, s)))))))))"

subsection \<open>esGenCube\<close>

definition cubeVerts :: "f32 list" where
  "cubeVerts =
     (let h = f32_lit 5 10 in
      [fneg h, fneg h, fneg h,
       fneg h, fneg h, h,
       h, fneg h, h,
       h, fneg h, fneg h,
       fneg h, h, fneg h,
       fneg h, h, h,
       h, h, h,
       h, h, fneg h,
       fneg h, fneg h, fneg h,
       fneg h, h, fneg h,
       h, h, fneg h,
       h, fneg h, fneg h,
       fneg h, fneg h, h,
       fneg h, h, h,
       h, h, h,
       h, fneg h, h,
       fneg h, fneg h, fneg h,
       fneg h, fneg h, h,
       fneg h, h, h,
       fneg h, h, fneg h,
       h, fneg h, fneg h,
       h, fneg h, h,
       h, h, h,
       h, h, fneg h])"

definition cubeNormals :: "f32 list" where
  "cubeNormals =
     (let z = f32_lit 0 1; u = f32_lit 1 1 in
      [z, fneg u, z,
       z, fneg u, z,
       z, fneg u, z,
       z, fneg u, z,
       z, u, z,
       z, u, z,
       z, u, z,
       z, u, z,
       z, z, fneg u,
       z, z, fneg u,
       z, z, fneg u,
       z, z, fneg u,
       z, z, u,
       z, z, u,
       z, z, u,
       z, z, u,
       fneg u, z, z,
       fneg u, z, z,
       fneg u, z, z,
       fneg u, z, z,
       u, z, z,
       u, z, z,
       u, z, z,
       u, z, z])"

definition cubeTex :: "f32 list" where
  "cubeTex =
     (let z = f32_lit 0 1; u = f32_lit 1 1 in
      [z, z,
       z, u,
       u, u,
       u, z,
       u, z,
       u, u,
       z, u,
       z, z,
       z, z,
       z, u,
       u, u,
       u, z,
       z, z,
       z, u,
       u, u,
       u, z,
       z, z,
       z, u,
       u, u,
       u, z,
       z, z,
       z, u,
       u, u,
       u, z])"

definition cubeIndices :: "32 word list" where
  "cubeIndices =
     [0, 2, 1,
      0, 3, 2,
      4, 5, 6,
      4, 6, 7,
      8, 9, 10,
      8, 10, 11,
      12, 15, 14,
      12, 14, 13,
      16, 17, 18,
      16, 18, 19,
      20, 23, 22,
      20, 22, 21]"

text \<open>The body of \<^verbatim>\<open>for (...) (*vertices)[i] *= scale;\<close>\<close>

definition scale_step :: "f32 \<Rightarrow> int \<Rightarrow> 'z mesh_scheme \<Rightarrow> 'z mesh_scheme result" where
  "scale_step scale i s =
     bindR (load (vertices s) i) (\<lambda>x.
     put_vertices i (map_option (\<lambda>p. fmul p scale) x) s)"

definition esGenCube :: "f32 \<Rightarrow> mesh \<Rightarrow> (int \<times> mesh) result" where
  "esGenCube scale s =
     (let numVertices = 24; numIndices = 36 in
      bindR (if vertices s \<noteq> None then
               bindR (copy_vertices cubeVerts
                        (s\<lparr>vertices := Some (malloc (3 * nat numVertices))\<rparr>)) (\<lambda>s.
               bindR (mul_int numVertices 3) (\<lambda>n.
               for_lt 0 n (scale_step scale) s))
             else Inr s) (\<lambda>s.
      bindR (if normals s \<noteq> None then
               copy_normals cubeNormals (s\<lparr>normals := Some (malloc (3 * nat numVertices))\<rparr>)
             else Inr s) (\<lambda>s.
      bindR (if texCoords s \<noteq> None then
               copy_texCoords cubeTex (s\<lparr>texCoords := Some (malloc (2 * nat numVertices))\<rparr>)
             else Inr s) (\<lambda>s.
      bindR (if indices s \<noteq> None then
               copy_indices cubeIndices (s\<lparr>indices := Some (malloc (nat numIndices))\<rparr>)
             else Inr s) (\<lambda>s.
      Inr (numIndices, s))))))"

subsection \<open>esGenArrow\<close>

definition ARROW_V1 :: "f32 list" where
  "ARROW_V1 = [f32_lit 0 1, f32_lit 1 1, f32_lit 0 1]"

definition ARROW_V2 :: "f32 list" where
  "ARROW_V2 = [fneg (f32_lit 3 10), fneg (f32_lit 3 10), f32_lit 0 1]"

definition ARROW_V3 :: "f32 list" where
  "ARROW_V3 = [f32_lit 3 10, fneg (f32_lit 3 10), f32_lit 0 1]"

definition ARROW_V4 :: "f32 list" where
  "ARROW_V4 = [f32_lit 0 1, f32_lit 0 1, f32_lit 3 10]"

definition ARROW_C1 :: "f32 list" where
  "ARROW_C1 = [f32_lit 1 1, f32_lit 0 1, f32_lit 0 1, f32_lit 0 1]"

definition ARROW_C2 :: "f32 list" where
  "ARROW_C2 = [f32_lit 0 1, f32_lit 1 1, f32_lit 0 1, f32_lit 0 1]"

definition ARROW_C3 :: "f32 list" where
  "ARROW_C3 = [f32_lit 0 1, f32_lit 0 1, f32_lit 1 1, f32_lit 0 1]"

text \<open>The initialiser as the source has it: the first and the last triple are commented out.\<close>

definition arrowVerts :: "f32 list" where
  "arrowVerts =
     ARROW_V1 @ ARROW_V4 @ ARROW_V2 @
     ARROW_V1 @ ARROW_V4 @ ARROW_V3"

definition arrowColors :: "f32 list" where
  "arrowColors =
     ARROW_C1 @ ARROW_C1 @ ARROW_C1 @
     ARROW_C2 @ ARROW_C2 @ ARROW_C2 @
     ARROW_C3 @ ARROW_C3 @ ARROW_C3 @
     ARROW_C1 @ ARROW_C1 @ ARROW_C1"

definition arrowIndices :: "32 word list" where
  "arrowIndices =
     [0, 1, 2,
      3, 4, 5,
      6, 7, 8,
      9, 10, 11]"

definition esGenArrow :: "f32 \<Rightarrow> arrow_mesh \<Rightarrow> (int \<times> arrow_mesh) result" where
  "esGenArrow scale s =
     (let numVertices = 12; numIndices = 12 in
      bindR (if vertices s \<noteq> None then
               bindR (copy_vertices arrowVerts
                        (s\<lparr>vertices := Some (malloc (3 * nat numVertices))\<rparr>)) (\<lambda>s.
               bindR (mul_int numVertices 3) (\<lambda>n.
               for_lt 0 n (scale_step scale) s))
             else Inr s) (\<lambda>s.
      bindR (if colors s \<noteq> None then
               copy_colors arrowColors (s\<lparr>colors := Some (malloc (4 * nat numVertices))\<rparr>)
             else Inr s) (\<lambda>s.
      bindR (if indices s \<noteq> None then
               copy_indices arrowIndices (s\<lparr>indices := Some (malloc (nat numIndices))\<rparr>)
             else Inr s) (\<lambda>s.
      Inr (numIndices, s)))))"

section \<open>Closed forms of the generated data\<close>

text \<open>
  The definitions of this section are not translations of code.  They state, following the
  specification, what each array holds when a generator returns; the theorems of the next
  sections compare the functions above with them.
\<close>

text \<open>An output parameter after the call: still null if it was null, else a fresh array.\<close>

definition filled :: "'a out \<Rightarrow> 'a option list \<Rightarrow> 'a out" where
  "filled p cells = (if p = None then None else Some (Array cells))"

text \<open>An array of \<open>n\<close> cells of which the first \<open>length ys\<close> have been written.\<close>

definition prefix_cells :: "'a list \<Rightarrow> nat \<Rightarrow> 'a option list" where
  "prefix_cells ys n = map Some ys @ replicate (n - length ys) None"

text \<open>
  The data of an \<open>m\<close> by \<open>n\<close> grid in row-major order, \<open>f i j\<close> being the data of the
  grid point \<open>(i, j)\<close>, and the part of it that precedes the point \<open>(i, j)\<close>.
\<close>

definition rows :: "(nat \<Rightarrow> nat \<Rightarrow> 'a list) \<Rightarrow> nat \<Rightarrow> nat \<Rightarrow> 'a list" where
  "rows f m n = concat (map (\<lambda>i. concat (map (f i) [0..<n])) [0..<m])"

definition cells_upto :: "(nat \<Rightarrow> nat \<Rightarrow> 'a list) \<Rightarrow> nat \<Rightarrow> nat \<Rightarrow> nat \<Rightarrow> 'a list" where
  "cells_upto f n i j = rows f i n @ concat (map (f i) [0..<j])"

text \<open>\<open>angleStep = 2\<pi> / slices\<close>, in binary32 arithmetic.\<close>

definition angle_step :: "int \<Rightarrow> f32" where
  "angle_step numSlices = fdiv (fmul (f32_lit 2 1) ES_PI) (f32_of_int numSlices)"

text \<open>
  The position of the grid vertex \<open>(i, j)\<close>:
  \<open>x = radius \<cdot> sin (angleStep \<cdot> i) \<cdot> sin (angleStep \<cdot> j)\<close>,
  \<open>y = radius \<cdot> cos (angleStep \<cdot> i)\<close>,
  \<open>z = radius \<cdot> sin (angleStep \<cdot> i) \<cdot> cos (angleStep \<cdot> j)\<close>.
\<close>

definition sphere_pos :: "libm \<Rightarrow> f32 \<Rightarrow> f32 \<Rightarrow> nat \<Rightarrow> nat \<Rightarrow> f32 list" where
  "sphere_pos lm radius a i j =
     [fmul (fmul radius (sinf lm (fmul a (f32_of_int (int i))))) (sinf lm (fmul a (f32_of_int (int j)))),
      fmul radius (cosf lm (fmul a (f32_of_int (int i)))),
      fmul (fmul radius (sinf lm (fmul a (f32_of_int (int i))))) (cosf lm (fmul a (f32_of_int (int j))))]"

text \<open>
  The texture coordinates of the grid vertex \<open>(i, j)\<close>: \<open>j\<close> mapped to \<open>[0, 1]\<close>, and
  \<open>i\<close> inverted and divided by \<open>parallels - 1\<close>.
\<close>

definition sphere_tex :: "int \<Rightarrow> nat \<Rightarrow> nat \<Rightarrow> f32 list" where
  "sphere_tex numSlices i j =
     [fdiv (f32_of_int (int j)) (f32_of_int numSlices),
      fdiv (fsub (f32_lit 1 1) (f32_of_int (int i))) (f32_of_int (numSlices div 2 - 1))]"

text \<open>The row-major number of the grid vertex \<open>(i, j)\<close>, a row having \<open>slices + 1\<close> vertices.\<close>

definition grid_vertex :: "int \<Rightarrow> int \<Rightarrow> int \<Rightarrow> 32 word" where
  "grid_vertex numSlices i j = word_of_int (i * (numSlices + 1) + j)"

text \<open>
  The two triangles of the grid cell \<open>(i, j)\<close>: \<open>(i, j)\<close>, \<open>(i+1, j)\<close>, \<open>(i+1, j+1)\<close>
  and \<open>(i, j)\<close>, \<open>(i+1, j+1)\<close>, \<open>(i, j+1)\<close>.
\<close>

definition sphere_tri :: "int \<Rightarrow> nat \<Rightarrow> nat \<Rightarrow> 32 word list" where
  "sphere_tri numSlices i j =
     [grid_vertex numSlices (int i) (int j),
      grid_vertex numSlices (int i + 1) (int j),
      grid_vertex numSlices (int i + 1) (int j + 1),
      grid_vertex numSlices (int i) (int j),
      grid_vertex numSlices (int i + 1) (int j + 1),
      grid_vertex numSlices (int i) (int j + 1)]"

text \<open>
  The arrays of the sphere: \<open>slices / 2 + 1\<close> rows of \<open>slices + 1\<close> vertices, and
  \<open>slices / 2\<close> rows of \<open>slices\<close> cells.
\<close>

definition sphere_positions :: "libm \<Rightarrow> int \<Rightarrow> f32 \<Rightarrow> f32 list" where
  "sphere_positions lm numSlices radius =
     rows (sphere_pos lm radius (angle_step numSlices))
       (nat (numSlices div 2 + 1)) (nat (numSlices + 1))"

definition sphere_texcoords :: "int \<Rightarrow> f32 list" where
  "sphere_texcoords numSlices =
     rows (sphere_tex numSlices) (nat (numSlices div 2 + 1)) (nat (numSlices + 1))"

definition sphere_indices :: "int \<Rightarrow> 32 word list" where
  "sphere_indices numSlices =
     rows (sphere_tri numSlices) (nat (numSlices div 2)) (nat numSlices)"

text \<open>
  The state of the sphere generator between two loop iterations: the positions \<open>ps\<close>, the
  texture coordinates \<open>ts\<close> and the indices \<open>ixs\<close> written so far.
\<close>

definition sphere_mesh :: "int \<Rightarrow> f32 \<Rightarrow> mesh \<Rightarrow> f32 list \<Rightarrow> f32 list \<Rightarrow> 32 word list \<Rightarrow> mesh" where
  "sphere_mesh numSlices radius s ps ts ixs =
     \<lparr>vertices = filled (vertices s)
                   (prefix_cells ps (3 * nat ((numSlices div 2 + 1) * (numSlices + 1)))),
      normals = filled (normals s)
                  (prefix_cells (map (\<lambda>p. fdiv p radius) ps)
                     (3 * nat ((numSlices div 2 + 1) * (numSlices + 1)))),
      texCoords = filled (texCoords s)
                    (prefix_cells ts (2 * nat ((numSlices div 2 + 1) * (numSlices + 1)))),
      indices = filled (indices s) (prefix_cells ixs (nat (numSlices div 2 * numSlices * 6)))\<rparr>"

text \<open>The positions of the cube and the normals of the sphere, as the specification gives them.\<close>

definition cube_positions :: "f32 \<Rightarrow> f32 list" where
  "cube_positions scale = map (\<lambda>c. fmul c scale) cubeVerts"

definition sphere_normals :: "libm \<Rightarrow> int \<Rightarrow> f32 \<Rightarrow> f32 list" where
  "sphere_normals lm numSlices radius =
     map (\<lambda>p. fdiv p radius) (sphere_positions lm numSlices radius)"

text \<open>
  The numbers whose half is again a binary32 number, so that the product with \<open>\<plusminus>0.5\<close> loses
  no bit: the normal numbers above the least exponent, the numbers of the least exponent with
  an even significand (among them the zeros), and the infinities and NaN, which halving
  leaves as they are.
\<close>

fun halves_exactly :: "f32 \<Rightarrow> bool" where
  "halves_exactly (Finite sg m e) =
     (m < 2 ^ 24 \<and> ((2 ^ 23 \<le> m \<and> - 148 \<le> e \<and> e \<le> 104) \<or> (e = - 149 \<and> even m)))"
| "halves_exactly (Infinity sg) = True"
| "halves_exactly NaN = True"

text \<open>The product of two finite numbers overflows: it is not finite.\<close>

fun is_finite :: "f32 \<Rightarrow> bool" where
  "is_finite (Finite sg m e) = True"
| "is_finite (Infinity sg) = False"
| "is_finite NaN = False"

definition overflows :: "f32 \<Rightarrow> f32 \<Rightarrow> bool" where
  "overflows x y = (is_finite x \<and> is_finite y \<and> \<not> is_finite (fmul x y))"

text \<open>
  A stand-in for the C library where a closed example needs one: the small-angle
  approximations \<open>sin x \<approx> x\<close> and \<open>cos x \<approx> 1\<close>, which are exact at \<open>0\<close>.
\<close>

definition libm_small_angle :: libm where
  "libm_small_angle = \<lparr>sinf = (\<lambda>x. x), cosf = (\<lambda>x. f32_lit 1 1)\<rparr>"

text \<open>
  The same stand-in with two of its values replaced by those a correctly rounding C library
  returns at the arguments the sphere of 4 slices uses: with \<open>a\<close> the binary32 number
  nearest to \<open>\<pi>\<close>, \<open>sin a \<approx> -8.742278e-8\<close> and \<open>cos (a / 2) \<approx> -4.371139e-8\<close>.
\<close>

definition libm_quarter_turns :: libm where
  "libm_quarter_turns =
     \<lparr>sinf = (\<lambda>x. if x = Finite False 13176795 (- 22) then Finite True 12303662 (- 47) else x),
      cosf = (\<lambda>x. if x = Finite False 13176795 (- 23) then Finite True 12303662 (- 48)
                    else f32_lit 1 1)\<rparr>"

text \<open>
  The steps of \<open>round_to_f32\<close> under names of their own, for the proofs about rounding:
  the binary logarithm of \<open>num / den\<close> rounded down, the significand for a given
  exponent shift, and the final normalisation with the overflow test.
\<close>

definition f32_log2 :: "nat \<Rightarrow> nat \<Rightarrow> int" where
  "f32_log2 num den =
     (let d = int (bitlen num) - int (bitlen den)
      in if den * 2 ^ nat d \<le> num * 2 ^ nat (- d) then d else d - 1)"

definition round_at :: "bool \<Rightarrow> nat \<Rightarrow> nat \<Rightarrow> int \<Rightarrow> f32" where
  "round_at sg num den u =
     (let N = num * 2 ^ nat (- u);
          D = den * 2 ^ nat u;
          q = N div D;
          r = N mod D;
          m = (if D < 2 * r \<or> (2 * r = D \<and> odd q) then q + 1 else q)
      in Finite sg m 0)"

definition renorm :: "f32 \<Rightarrow> int \<Rightarrow> f32" where
  "renorm x t =
     (case x of
        Finite sg m z \<Rightarrow>
          if m = 2 ^ 24 then (if 104 < t + 1 then Infinity sg else Finite sg (2 ^ 23) (t + 1))
          else (if 104 < t then Infinity sg else Finite sg m t)
      | _ \<Rightarrow> x)"

section \<open>Properties of the model\<close>

lemma bindR_Inr [simp]: "bindR (Inr x) f = f x"
  by (simp add: bindR_def)

lemma bindR_Inl [simp]: "bindR (Inl e) f = Inl e"
  by (simp add: bindR_def)

lemma for_lt_done: "n \<le> i \<Longrightarrow> for_lt i n body s = Inr s"
  by (subst for_lt.simps) simp

lemma for_lt_fault: "i < n \<Longrightarrow> body i s = Inl e \<Longrightarrow> for_lt i n body s = Inl e"
  by (subst for_lt.simps) simp

lemma for_lt_step:
  "i < n \<Longrightarrow> n \<le> INT_MAX \<Longrightarrow> body i s = Inr t \<Longrightarrow> for_lt i n body s = for_lt (i + 1) n body t"
  by (subst for_lt.simps) simp

lemma for_lt_rule:
  assumes "I i s" and "i \<le> n" and "n \<le> INT_MAX"
    and step: "\<And>k t. i \<le> k \<Longrightarrow> k < n \<Longrightarrow> I k t \<Longrightarrow> \<exists>t'. body k t = Inr t' \<and> I (k + 1) t'"
  shows "\<exists>t. for_lt i n body s = Inr t \<and> I n t"
proof -
  have "\<And>k t. nat (n - k) = d \<Longrightarrow> i \<le> k \<Longrightarrow> k \<le> n \<Longrightarrow> I k t
          \<Longrightarrow> \<exists>t'. for_lt k n body t = Inr t' \<and> I n t'" for d
  proof (induction d)
    case 0
    then have "k = n" by simp
    with 0 show ?case by (simp add: for_lt_done)
  next
    case (Suc d)
    then have lt: "k < n" by linarith
    from step [OF Suc.prems(2) lt Suc.prems(4)]
    obtain t' where t': "body k t = Inr t'" "I (k + 1) t'" by blast
    have "nat (n - (k + 1)) = d" using Suc.prems(1) by linarith
    from Suc.IH [OF this _ _ t'(2)] Suc.prems lt
    obtain u where "for_lt (k + 1) n body t' = Inr u" "I n u" by auto
    with for_lt_step [of k n body t t', OF lt assms(3) t'(1)] show ?case by simp
  qed
  from this [OF refl order_refl assms(2) assms(1)] show ?thesis .
qed

text \<open>The scaling loop multiplies every cell of the array by the scale.\<close>

lemma load_Array:
  "0 \<le> k \<Longrightarrow> nat k < length xs \<Longrightarrow> load (Some (Array xs)) k = Inr (xs ! nat k)"
  by (simp add: load_def)

lemma store_Array:
  "0 \<le> k \<Longrightarrow> nat k < length xs \<Longrightarrow> store (Some (Array xs)) k v = Inr (Some (Array (xs[nat k := v])))"
  by (simp add: store_def)

lemma take_Suc_map_drop:
  "k < length xs \<Longrightarrow>
   (map f (take k xs) @ drop k xs)[k := f (xs ! k)] = map f (take (Suc k) xs) @ drop (Suc k) xs"
  by (simp add: take_Suc_conv_app_nth list_update_append Cons_nth_drop_Suc [symmetric])

lemma scale_loop:
  assumes "int (length xs) = n" and "n \<le> INT_MAX"
  shows "for_lt 0 n (scale_step scale) (s\<lparr>vertices := Some (Array xs)\<rparr>)
         = Inr (s\<lparr>vertices := Some (Array (map (map_option (\<lambda>p. fmul p scale)) xs))\<rparr>)"
proof -
  let ?f = "map_option (\<lambda>p. fmul p scale)"
  let ?I = "\<lambda>k t. t = s\<lparr>vertices := Some (Array (map ?f (take (nat k) xs) @ drop (nat k) xs))\<rparr>"
  have "\<exists>t. for_lt 0 n (scale_step scale) (s\<lparr>vertices := Some (Array xs)\<rparr>) = Inr t \<and> ?I n t"
  proof (rule for_lt_rule [where I = ?I])
    show "?I 0 (s\<lparr>vertices := Some (Array xs)\<rparr>)" by simp
    show "0 \<le> n" using assms by auto
    show "n \<le> INT_MAX" by fact
  next
    fix k t
    assume k: "0 \<le> k" "k < n" and t: "?I k t"
    from k assms have lt: "nat k < length xs" by linarith
    have Suc: "nat (k + 1) = Suc (nat k)" using k by simp
    show "\<exists>t'. scale_step scale k t = Inr t' \<and> ?I (k + 1) t'"
      using k lt
      by (simp add: t scale_step_def put_vertices_def load_Array store_Array Suc
            nth_append take_Suc_map_drop)
  qed
  with assms show ?thesis by auto
qed

lemma memcpy_malloc:
  "length tbl \<le> n \<Longrightarrow>
   memcpy (Some (malloc n)) tbl = Inr (Some (Array (map Some tbl @ replicate (n - length tbl) None)))"
  by (simp add: memcpy_def malloc_def)

lemma length_cubeVerts: "length cubeVerts = 72"
  by (simp add: cubeVerts_def Let_def)

lemma length_cubeNormals: "length cubeNormals = 72"
  by (simp add: cubeNormals_def Let_def)

lemma length_cubeTex: "length cubeTex = 48"
  by (simp add: cubeTex_def Let_def)

lemma length_cubeIndices: "length cubeIndices = 36"
  by (simp add: cubeIndices_def)

lemma length_arrowVerts: "length arrowVerts = 18"
  by (simp add: arrowVerts_def ARROW_V1_def ARROW_V2_def ARROW_V3_def ARROW_V4_def)

lemma length_arrowColors: "length arrowColors = 48"
  by (simp add: arrowColors_def ARROW_C1_def ARROW_C2_def ARROW_C3_def)

lemma length_arrowIndices: "length arrowIndices = 12"
  by (simp add: arrowIndices_def)

lemma copy_malloc:
  "length tbl \<le> n \<Longrightarrow> copy_vertices tbl (s\<lparr>vertices := Some (malloc n)\<rparr>)
     = Inr (s\<lparr>vertices := Some (Array (map Some tbl @ replicate (n - length tbl) None))\<rparr>)"
  "length tbl \<le> n \<Longrightarrow> copy_normals tbl (s\<lparr>normals := Some (malloc n)\<rparr>)
     = Inr (s\<lparr>normals := Some (Array (map Some tbl @ replicate (n - length tbl) None))\<rparr>)"
  "length tbl \<le> n \<Longrightarrow> copy_texCoords tbl (s\<lparr>texCoords := Some (malloc n)\<rparr>)
     = Inr (s\<lparr>texCoords := Some (Array (map Some tbl @ replicate (n - length tbl) None))\<rparr>)"
  "length ixs \<le> n \<Longrightarrow> copy_indices ixs (s\<lparr>indices := Some (malloc n)\<rparr>)
     = Inr (s\<lparr>indices := Some (Array (map Some ixs @ replicate (n - length ixs) None))\<rparr>)"
  "length tbl \<le> n \<Longrightarrow> copy_colors tbl (t\<lparr>colors := Some (malloc n)\<rparr>)
     = Inr (t\<lparr>colors := Some (Array (map Some tbl @ replicate (n - length tbl) None))\<rparr>)"
  by (simp_all add: copy_vertices_def copy_normals_def copy_texCoords_def copy_indices_def
        copy_colors_def memcpy_malloc)

lemma cube_vertices:
  "bindR (copy_vertices cubeVerts (s\<lparr>vertices := Some (malloc 72)\<rparr>)) (\<lambda>s.
   bindR (mul_int 24 3) (\<lambda>n. for_lt 0 n (scale_step scale) s))
   = Inr (s\<lparr>vertices := Some (Array (map (\<lambda>p. Some (fmul p scale)) cubeVerts))\<rparr>)"
  using scale_loop [of "map Some cubeVerts" 72 scale s]
  by (simp add: copy_malloc length_cubeVerts mul_int_def cint_def INT_MAX_def INT_MIN_def
        comp_def)

lemma esGenCube_result:
  "esGenCube scale s =
     Inr (36, s\<lparr>vertices := filled (vertices s) (map (\<lambda>p. Some (fmul p scale)) cubeVerts),
                normals := filled (normals s) (map Some cubeNormals),
                texCoords := filled (texCoords s) (map Some cubeTex),
                indices := filled (indices s) (map Some cubeIndices)\<rparr>)"
  unfolding esGenCube_def Let_def
  by (simp add: cube_vertices copy_malloc length_cubeNormals length_cubeTex
        length_cubeIndices filled_def)

lemma arrow_vertices:
  "bindR (copy_vertices arrowVerts (s\<lparr>vertices := Some (malloc 36)\<rparr>)) (\<lambda>s.
   bindR (mul_int 12 3) (\<lambda>n. for_lt 0 n (scale_step scale) s))
   = Inr (s\<lparr>vertices := Some (Array (map (\<lambda>p. Some (fmul p scale)) arrowVerts @ replicate 18 None))\<rparr>)"
  using scale_loop [of "map Some arrowVerts @ replicate 18 None" 36 scale s]
  by (simp add: copy_malloc length_arrowVerts mul_int_def cint_def INT_MAX_def INT_MIN_def
        comp_def)

lemma esGenArrow_result:
  "esGenArrow scale s =
     Inr (12, s\<lparr>vertices := filled (vertices s)
                               (map (\<lambda>p. Some (fmul p scale)) arrowVerts @ replicate 18 None),
                colors := filled (colors s) (map Some arrowColors),
                indices := filled (indices s) (map Some arrowIndices)\<rparr>)"
  unfolding esGenArrow_def Let_def
  by (simp add: arrow_vertices copy_malloc length_arrowColors length_arrowIndices filled_def)

lemma prefix_cells_Nil: "prefix_cells [] n = replicate n None"
  by (simp add: prefix_cells_def)

lemma prefix_cells_full: "length ys = n \<Longrightarrow> prefix_cells ys n = map Some ys"
  by (simp add: prefix_cells_def)

lemma store_prefix:
  assumes "length ys < n" and "k = int (length ys)"
  shows "store (Some (Array (prefix_cells ys n))) k (Some y)
         = Inr (Some (Array (prefix_cells (ys @ [y]) n)))"
proof -
  from assms(1) obtain d where d: "n - length ys = Suc d"
    by (metis Suc_diff_Suc)
  then have "n - Suc (length ys) = d" by simp
  with d assms show ?thesis
    by (simp add: store_def prefix_cells_def list_update_append)
qed

lemma load_prefix:
  assumes "i < length ys" and "k = int i"
  shows "load (Some (Array (prefix_cells ys n))) k = Inr (Some (ys ! i))"
  using assms by (simp add: load_def prefix_cells_def nth_append)

lemma cells_upto_0: "cells_upto f n i 0 = rows f i n"
  by (simp add: cells_upto_def)

lemma cells_upto_Suc: "cells_upto f n i (Suc j) = cells_upto f n i j @ f i j"
  by (simp add: cells_upto_def)

lemma cells_upto_row: "cells_upto f n i n = rows f (Suc i) n"
  by (simp add: cells_upto_def rows_def)

lemma rows_0: "rows f 0 n = []"
  by (simp add: rows_def)

lemma length_concat_const:
  "(\<And>x. x \<in> set xs \<Longrightarrow> length (f x) = k) \<Longrightarrow> length (concat (map f xs)) = k * length xs"
  by (induction xs) auto

lemma length_rows: "(\<And>i j. length (f i j) = k) \<Longrightarrow> length (rows f m n) = k * (m * n)"
  by (simp add: rows_def length_concat_const [where k = "k * n"] length_concat_const [where k = k])

lemma length_cells_upto:
  "(\<And>i j. length (f i j) = k) \<Longrightarrow> length (cells_upto f n i j) = k * (i * n + j)"
  by (simp add: cells_upto_def length_rows length_concat_const [where k = k] algebra_simps)

lemma sphere_position_ok:
  assumes "vertices t = Some (Array (prefix_cells ps N))" and "vertex = int (length ps)"
    and "length ps + 3 \<le> N" and "vertex + 2 \<le> INT_MAX"
  shows "sphere_position lm radius a (int i) (int j) vertex t
         = Inr (t\<lparr>vertices := Some (Array (prefix_cells (ps @ sphere_pos lm radius a i j) N))\<rparr>)"
proof -
  have r: "\<And>d. 0 \<le> d \<Longrightarrow> d \<le> 2 \<Longrightarrow> add_int (int (length ps)) d = Inr (int (length ps) + d)"
    using assms(2,4) by (simp add: add_int_def cint_def INT_MIN_def)
  have s: "\<And>ys y k. length ys < N \<Longrightarrow> k = int (length ys) \<Longrightarrow>
      store (Some (Array (prefix_cells ys N))) k (Some y) = Inr (Some (Array (prefix_cells (ys @ [y]) N)))"
    by (rule store_prefix)
  show ?thesis
    using assms(1,2,3)
    by (simp add: sphere_position_def put_vertices_def r s sphere_pos_def)
qed

lemma sphere_normal_ok:
  assumes "vertices t = Some (Array (prefix_cells (ps @ [x, y, z]) N))"
    and "normals t = Some (Array (prefix_cells qs N))"
    and "length qs = length ps"
    and "vertex = int (length ps)"
    and "length ps + 3 \<le> N" and "vertex + 2 \<le> INT_MAX"
  shows "sphere_normal radius vertex t
         = Inr (t\<lparr>normals := Some (Array (prefix_cells (qs @ [fdiv x radius, fdiv y radius, fdiv z radius]) N))\<rparr>)"
proof -
  have r: "\<And>d. 0 \<le> d \<Longrightarrow> d \<le> 2 \<Longrightarrow> add_int (int (length ps)) d = Inr (int (length ps) + d)"
    using assms(4,6) by (simp add: add_int_def cint_def INT_MIN_def)
  have s: "\<And>ys y k. length ys < N \<Longrightarrow> k = int (length ys) \<Longrightarrow>
      store (Some (Array (prefix_cells ys N))) k (Some y) = Inr (Some (Array (prefix_cells (ys @ [y]) N)))"
    by (rule store_prefix)
  have l: "\<And>d. d < 3 \<Longrightarrow> load (Some (Array (prefix_cells (ps @ [x, y, z]) N))) (int (length ps) + int d)
      = Inr (Some ((ps @ [x, y, z]) ! (length ps + d)))"
    by (intro load_prefix) auto
  from l [of 0] l [of 1] l [of 2]
  have l': "load (Some (Array (prefix_cells (ps @ [x, y, z]) N))) (int (length ps)) = Inr (Some x)"
    "load (Some (Array (prefix_cells (ps @ [x, y, z]) N))) (int (length ps) + 1) = Inr (Some y)"
    "load (Some (Array (prefix_cells (ps @ [x, y, z]) N))) (int (length ps) + 2) = Inr (Some z)"
    by (simp_all add: nth_append)
  show ?thesis
    using assms(1,2,3,4,5)
    by (simp add: sphere_normal_def put_normals_def r s l')
qed

lemma sphere_texcoord_ok:
  assumes "texCoords t = Some (Array (prefix_cells ts N))"
    and "0 \<le> numSlices" and "numSlices < INT_MAX" and "INT_MIN < np"  and "np \<le> INT_MAX"
    and "int i * (numSlices + 1) \<le> INT_MAX"
    and "int (length ts) = (int i * (numSlices + 1) + int j) * 2"
    and "length ts + 2 \<le> N" and "int (length ts) + 1 \<le> INT_MAX"
  shows "sphere_texcoord numSlices np (int i) (int j) t
         = Inr (t\<lparr>texCoords := Some (Array (prefix_cells
                  (ts @ [fdiv (f32_of_int (int j)) (f32_of_int numSlices),
                         fdiv (fsub (f32_lit 1 1) (f32_of_int (int i))) (f32_of_int (np - 1))]) N))\<rparr>)"
proof -
  have a: "add_int numSlices 1 = Inr (numSlices + 1)"
    using assms(2,3) by (simp add: add_int_def cint_def INT_MIN_def)
  have nn: "0 \<le> int i * (numSlices + 1)"
    using assms(2) by simp
  have b: "mul_int (int i) (numSlices + 1) = Inr (int i * (numSlices + 1))"
    using nn assms(6) by (simp add: mul_int_def cint_def INT_MIN_def)
  have le: "int i * (numSlices + 1) + int j \<le> int (length ts)"
    using nn assms(7) by simp
  have c: "add_int (int i * (numSlices + 1)) (int j) = Inr (int i * (numSlices + 1) + int j)"
    using nn assms(9) le by (simp add: add_int_def cint_def INT_MIN_def)
  have d: "mul_int (int i * (numSlices + 1) + int j) 2 = Inr (int (length ts))"
    using assms(7,9) by (simp add: mul_int_def cint_def INT_MIN_def)
  have r: "\<And>d. 0 \<le> d \<Longrightarrow> d \<le> 1 \<Longrightarrow> add_int (int (length ts)) d = Inr (int (length ts) + d)"
    using assms(9) by (simp add: add_int_def cint_def INT_MIN_def)
  have e: "sub_int np 1 = Inr (np - 1)"
    using assms(4,5) by (simp add: sub_int_def cint_def)
  have s: "\<And>ys y k. length ys < N \<Longrightarrow> k = int (length ys) \<Longrightarrow>
      store (Some (Array (prefix_cells ys N))) k (Some y) = Inr (Some (Array (prefix_cells (ys @ [y]) N)))"
    by (rule store_prefix)
  show ?thesis
    using assms(1,8)
    by (simp add: sphere_texcoord_def put_texCoords_def a b c d e r s)
qed

lemma grid_bounds:
  assumes "0 \<le> n" and "n \<le> 26755" and "i \<le> nat (n div 2)" and "j \<le> nat n"
  shows "int i * (n + 1) + int j < (n div 2 + 1) * (n + 1)"
    and "(n div 2 + 1) * (n + 1) \<le> 357941768"
    and "0 \<le> int i * (n + 1)"
proof -
  have p: "0 \<le> n div 2" "n div 2 \<le> 13377" using assms(1,2) by auto
  have "int i * (n + 1) \<le> (n div 2) * (n + 1)"
    using assms(1,3) p by (intro mult_right_mono) auto
  moreover have "int j \<le> n" using assms(1,4) by auto
  ultimately show "int i * (n + 1) + int j < (n div 2 + 1) * (n + 1)"
    by (simp add: algebra_simps)
  have "(n div 2 + 1) * (n + 1) \<le> 13378 * 26756"
    using assms(1,2) p by (intro mult_mono) auto
  then show "(n div 2 + 1) * (n + 1) \<le> 357941768" by simp
  show "0 \<le> int i * (n + 1)" using assms(1) by simp
qed

lemma len_bound:
  fixes V W :: int
  assumes "V < W" and "int L = V * int k" and "0 \<le> V" and "0 < k"
  shows "L + k \<le> k * nat W"
proof -
  have "V + 1 \<le> W" using assms(1) by simp
  then have "(V + 1) * int k \<le> W * int k"
    using assms(4) by (intro mult_right_mono) auto
  then have "int (L + k) \<le> int (k * nat W)"
    using assms by (simp add: algebra_simps)
  then show ?thesis by linarith
qed

lemma sphere_vertex_ok:
  assumes n: "0 \<le> numSlices" "numSlices \<le> 26755"
    and ij: "i \<le> nat (numSlices div 2)" "j \<le> nat numSlices"
    and valid: "normals s \<noteq> None \<longrightarrow> vertices s \<noteq> None"
    and lp: "int (length ps) = (int i * (numSlices + 1) + int j) * 3"
    and lt: "int (length ts) = (int i * (numSlices + 1) + int j) * 2"
  shows "sphere_vertex lm numSlices (numSlices div 2) radius a (int i) (int j)
           (sphere_mesh numSlices radius s ps ts ixs)
         = Inr (sphere_mesh numSlices radius s (ps @ sphere_pos lm radius a i j)
                  (ts @ sphere_tex numSlices i j) ixs)"
proof -
  note g = grid_bounds [OF n ij]
  let ?v = "int i * (numSlices + 1) + int j"
  let ?nv = "nat ((numSlices div 2 + 1) * (numSlices + 1))"
  have v0: "0 \<le> ?v" using g(3) by simp
  have a1: "add_int numSlices 1 = Inr (numSlices + 1)"
    using n by (simp add: add_int_def cint_def INT_MIN_def INT_MAX_def)
  have a2: "mul_int (int i) (numSlices + 1) = Inr (int i * (numSlices + 1))"
    using g v0 by (simp add: mul_int_def cint_def INT_MIN_def INT_MAX_def)
  have a3: "add_int (int i * (numSlices + 1)) (int j) = Inr ?v"
    using g v0 by (simp add: add_int_def cint_def INT_MIN_def INT_MAX_def)
  have a4: "mul_int ?v 3 = Inr (int (length ps))"
    using g v0 lp by (simp add: mul_int_def cint_def INT_MIN_def INT_MAX_def)
  have bp: "length ps + 3 \<le> 3 * ?nv"
    using g(1) lp v0 by (intro len_bound [where V = ?v]) auto
  have bt: "length ts + 2 \<le> 2 * ?nv"
    using g(1) lt v0 by (intro len_bound [where V = ?v]) auto
  have mp: "int (length ps) + 2 \<le> INT_MAX" using g lp by (simp add: INT_MAX_def)
  have mt: "int (length ts) + 1 \<le> INT_MAX" using g lt by (simp add: INT_MAX_def)
  have tex: "sphere_texcoord numSlices (numSlices div 2) (int i) (int j) t
        = Inr (t\<lparr>texCoords := Some (Array (prefix_cells (ts @ sphere_tex numSlices i j)
                 (2 * ?nv)))\<rparr>)"
    if "texCoords t = Some (Array (prefix_cells ts (2 * ?nv)))" for t
    unfolding sphere_tex_def
    using that n g lt bt mt
    by (intro sphere_texcoord_ok) (auto simp: INT_MAX_def INT_MIN_def)
  have pos: "sphere_position lm radius a (int i) (int j) (int (length ps)) t
        = Inr (t\<lparr>vertices := Some (Array (prefix_cells (ps @ sphere_pos lm radius a i j) (3 * ?nv)))\<rparr>)"
    if "vertices t = Some (Array (prefix_cells ps (3 * ?nv)))" for t
    using that bp mp by (intro sphere_position_ok) auto
  have nor: "sphere_normal radius (int (length ps)) t
        = Inr (t\<lparr>normals := Some (Array (prefix_cells
                 (map (\<lambda>p. fdiv p radius) (ps @ sphere_pos lm radius a i j)) (3 * ?nv)))\<rparr>)"
    if "vertices t = Some (Array (prefix_cells (ps @ sphere_pos lm radius a i j) (3 * ?nv)))"
      and "normals t = Some (Array (prefix_cells (map (\<lambda>p. fdiv p radius) ps) (3 * ?nv)))" for t
    using sphere_normal_ok [of t ps _ _ _ "3 * ?nv" "map (\<lambda>p. fdiv p radius) ps" "int (length ps)" radius]
      that bp mp
    by (simp add: sphere_pos_def)
  show ?thesis
    using valid
    by (cases "vertices s"; cases "normals s"; cases "texCoords s")
      (simp_all add: sphere_vertex_def sphere_mesh_def filled_def a1 a2 a3 a4 pos nor tex)
qed

lemma length_sphere_pos [simp]: "length (sphere_pos lm radius a i j) = 3"
  by (simp add: sphere_pos_def)

lemma length_sphere_tex [simp]: "length (sphere_tex n i j) = 2"
  by (simp add: sphere_tex_def)

lemma length_sphere_tri [simp]: "length (sphere_tri n i j) = 6"
  by (simp add: sphere_tri_def)

lemma sphere_vertex_row:
  assumes n: "0 \<le> numSlices" "numSlices \<le> 26755"
    and i: "i \<le> nat (numSlices div 2)"
    and valid: "normals s \<noteq> None \<longrightarrow> vertices s \<noteq> None"
  shows "for_lt 0 (numSlices + 1)
           (\<lambda>j. sphere_vertex lm numSlices (numSlices div 2) radius a (int i) j)
           (sphere_mesh numSlices radius s
              (rows (sphere_pos lm radius a) i (nat (numSlices + 1)))
              (rows (sphere_tex numSlices) i (nat (numSlices + 1))) ixs)
         = Inr (sphere_mesh numSlices radius s
              (rows (sphere_pos lm radius a) (Suc i) (nat (numSlices + 1)))
              (rows (sphere_tex numSlices) (Suc i) (nat (numSlices + 1))) ixs)"
proof -
  let ?w = "nat (numSlices + 1)"
  let ?P = "cells_upto (sphere_pos lm radius a) ?w i"
  let ?T = "cells_upto (sphere_tex numSlices) ?w i"
  let ?I = "\<lambda>k t. t = sphere_mesh numSlices radius s (?P (nat k)) (?T (nat k)) ixs"
  have "\<exists>t. for_lt 0 (numSlices + 1)
           (\<lambda>j. sphere_vertex lm numSlices (numSlices div 2) radius a (int i) j)
           (sphere_mesh numSlices radius s (?P 0) (?T 0) ixs) = Inr t \<and> ?I (numSlices + 1) t"
  proof (rule for_lt_rule [where I = ?I])
    show "?I 0 (sphere_mesh numSlices radius s (?P 0) (?T 0) ixs)" by simp
    show "0 \<le> numSlices + 1" using n by simp
    show "numSlices + 1 \<le> INT_MAX" using n by (simp add: INT_MAX_def)
  next
    fix k t
    assume k: "0 \<le> k" "k < numSlices + 1" and t: "?I k t"
    have j: "nat k \<le> nat numSlices" using k by simp
    have w: "int ?w = numSlices + 1" using n by simp
    have lp: "int (length (?P (nat k))) = (int i * (numSlices + 1) + int (nat k)) * 3"
      using n by (simp add: length_cells_upto [where k = 3] algebra_simps)
    have lt: "int (length (?T (nat k))) = (int i * (numSlices + 1) + int (nat k)) * 2"
      using n by (simp add: length_cells_upto [where k = 2] algebra_simps)
    have Suc: "nat (k + 1) = Suc (nat k)" using k by simp
    from sphere_vertex_ok [OF n i j valid lp lt, of lm radius a ixs] k
    show "\<exists>t'. sphere_vertex lm numSlices (numSlices div 2) radius a (int i) k t = Inr t'
            \<and> ?I (k + 1) t'"
      by (simp add: t Suc cells_upto_Suc)
  qed
  then show ?thesis
    by (simp add: cells_upto_0 cells_upto_row)
qed

lemma sphere_vertex_grid:
  assumes n: "0 \<le> numSlices" "numSlices \<le> 26755"
    and valid: "normals s \<noteq> None \<longrightarrow> vertices s \<noteq> None"
  shows "for_lt 0 (numSlices div 2 + 1)
           (\<lambda>i. for_lt 0 (numSlices + 1)
              (\<lambda>j. sphere_vertex lm numSlices (numSlices div 2) radius a i j))
           (sphere_mesh numSlices radius s [] [] ixs)
         = Inr (sphere_mesh numSlices radius s
              (rows (sphere_pos lm radius a) (nat (numSlices div 2 + 1)) (nat (numSlices + 1)))
              (rows (sphere_tex numSlices) (nat (numSlices div 2 + 1)) (nat (numSlices + 1))) ixs)"
proof -
  let ?w = "nat (numSlices + 1)"
  let ?I = "\<lambda>k t. t = sphere_mesh numSlices radius s
              (rows (sphere_pos lm radius a) (nat k) ?w) (rows (sphere_tex numSlices) (nat k) ?w) ixs"
  have "\<exists>t. for_lt 0 (numSlices div 2 + 1)
           (\<lambda>i. for_lt 0 (numSlices + 1)
              (\<lambda>j. sphere_vertex lm numSlices (numSlices div 2) radius a i j))
           (sphere_mesh numSlices radius s [] [] ixs) = Inr t \<and> ?I (numSlices div 2 + 1) t"
  proof (rule for_lt_rule [where I = ?I])
    show "?I 0 (sphere_mesh numSlices radius s [] [] ixs)" by (simp add: rows_0)
    show "0 \<le> numSlices div 2 + 1" using n by simp
    show "numSlices div 2 + 1 \<le> INT_MAX" using n by (simp add: INT_MAX_def)
  next
    fix k t
    assume k: "0 \<le> k" "k < numSlices div 2 + 1" and t: "?I k t"
    have i: "nat k \<le> nat (numSlices div 2)" using k by simp
    have Suc: "nat (k + 1) = Suc (nat k)" using k by simp
    from sphere_vertex_row [OF n i valid, of lm radius a ixs] k
    show "\<exists>t'. for_lt 0 (numSlices + 1)
              (\<lambda>j. sphere_vertex lm numSlices (numSlices div 2) radius a k j) t = Inr t'
            \<and> ?I (k + 1) t'"
      by (simp add: t Suc)
  qed
  then show ?thesis by simp
qed

lemma emit_ok:
  assumes "indices t = Some (Array (prefix_cells ixs N))" and "length ixs < N"
    and "k = length ixs"
  shows "emit v (k, t)
         = Inr (Suc k, t\<lparr>indices := Some (Array (prefix_cells (ixs @ [word_of_int v]) N))\<rparr>)"
  using assms by (simp add: emit_def put_indices_def store_prefix)

lemma emit_mesh:
  assumes "length ys < N" and "k = length ys"
  shows "emit v (k, \<lparr>vertices = a, normals = b, texCoords = c,
                     indices = Some (Array (prefix_cells ys N))\<rparr>)
         = Inr (Suc k, \<lparr>vertices = a, normals = b, texCoords = c,
                        indices = Some (Array (prefix_cells (ys @ [word_of_int v]) N))\<rparr>)"
  using assms by (simp add: emit_ok)

lemma cell_bounds:
  assumes "0 \<le> n" and "n \<le> 26755" and "i < nat (n div 2)" and "j < nat n"
  shows "int i * n + int j < n div 2 * n"
    and "n div 2 * n * 6 \<le> INT_MAX"
proof -
  have p: "0 \<le> n div 2" "n div 2 \<le> 13377" using assms(1,2) by auto
  have "(int i + 1) * n \<le> (n div 2) * n"
    using assms(1,3) p by (intro mult_right_mono) auto
  moreover have "int j < n" using assms(1,4) by auto
  ultimately show "int i * n + int j < n div 2 * n"
    by (simp add: algebra_simps)
  have "n div 2 * n \<le> 13377 * 26755"
    using assms(1,2) p by (intro mult_mono) auto
  then show "n div 2 * n * 6 \<le> INT_MAX" by (simp add: INT_MAX_def)
qed

lemma sphere_cell_ok:
  assumes n: "0 \<le> numSlices" "numSlices \<le> 26755"
    and ij: "i < nat (numSlices div 2)" "j < nat numSlices"
    and req: "indices s \<noteq> None"
    and len: "int (length ixs) = (int i * numSlices + int j) * 6"
  shows "sphere_cell numSlices (int i) (int j) (length ixs, sphere_mesh numSlices radius s ps ts ixs)
         = Inr (length ixs + 6,
                sphere_mesh numSlices radius s ps ts (ixs @ sphere_tri numSlices i j))"
proof -
  let ?N = "nat (numSlices div 2 * numSlices * 6)"
  have i1: "i \<le> nat (numSlices div 2)" "Suc i \<le> nat (numSlices div 2)"
    and j1: "j \<le> nat numSlices" "Suc j \<le> nat numSlices"
    using ij by auto
  note g00 = grid_bounds [OF n i1(1) j1(1)]
  note g10 = grid_bounds [OF n i1(2) j1(1)]
  note g11 = grid_bounds [OF n i1(2) j1(2)]
  note g01 = grid_bounds [OF n i1(1) j1(2)]
  note c = cell_bounds [OF n ij]
  have v0: "0 \<le> int i * numSlices + int j" using n by simp
  have bl: "length ixs + 6 \<le> ?N"
    using len_bound [where V = "int i * numSlices + int j" and W = "numSlices div 2 * numSlices"
        and L = "length ixs" and k = 6] c(1) len v0
    by (simp add: mult.commute)
  have rm: "row_major numSlices a b = Inr (a * (numSlices + 1) + b)"
    if "0 \<le> a * (numSlices + 1)" "0 \<le> b" "a * (numSlices + 1) + b \<le> 357941768" for a b
    using that n
    by (simp add: row_major_def add_int_def mul_int_def cint_def INT_MIN_def INT_MAX_def)
  have r00: "row_major numSlices (int i) (int j) = Inr (int i * (numSlices + 1) + int j)"
    using g00 by (intro rm) auto
  have r10: "row_major numSlices (int i + 1) (int j) = Inr ((int i + 1) * (numSlices + 1) + int j)"
    using g10 by (intro rm) (auto simp: add.commute)
  have r11: "row_major numSlices (int i + 1) (int j + 1)
             = Inr ((int i + 1) * (numSlices + 1) + (int j + 1))"
    using g11 by (intro rm) (auto simp: add.commute)
  have r01: "row_major numSlices (int i) (int j + 1) = Inr (int i * (numSlices + 1) + (int j + 1))"
    using g01 by (intro rm) (auto simp: add.commute)
  have a4: "add_int (int i) 1 = Inr (int i + 1)"
    using ij n by (simp add: add_int_def cint_def INT_MIN_def INT_MAX_def)
  have a7: "add_int (int j) 1 = Inr (int j + 1)"
    using ij n by (simp add: add_int_def cint_def INT_MIN_def INT_MAX_def)
  from req obtain q where q: "indices s = Some q" by auto
  show ?thesis
    using bl
    by (simp add: sphere_cell_def sphere_mesh_def filled_def q r00 r10 r11 r01 a4 a7
          emit_mesh sphere_tri_def grid_vertex_def)
qed

lemma sphere_cell_row:
  assumes n: "0 \<le> numSlices" "numSlices \<le> 26755"
    and i: "i < nat (numSlices div 2)"
    and req: "indices s \<noteq> None"
  shows "for_lt 0 numSlices (\<lambda>j. sphere_cell numSlices (int i) j)
           (length (rows (sphere_tri numSlices) i (nat numSlices)),
            sphere_mesh numSlices radius s ps ts (rows (sphere_tri numSlices) i (nat numSlices)))
         = Inr (length (rows (sphere_tri numSlices) (Suc i) (nat numSlices)),
            sphere_mesh numSlices radius s ps ts (rows (sphere_tri numSlices) (Suc i) (nat numSlices)))"
proof -
  let ?C = "cells_upto (sphere_tri numSlices) (nat numSlices) i"
  let ?I = "\<lambda>k ks. ks = (length (?C (nat k)), sphere_mesh numSlices radius s ps ts (?C (nat k)))"
  have "\<exists>t. for_lt 0 numSlices (\<lambda>j. sphere_cell numSlices (int i) j)
           (length (?C 0), sphere_mesh numSlices radius s ps ts (?C 0)) = Inr t \<and> ?I numSlices t"
  proof (rule for_lt_rule [where I = ?I])
    show "?I 0 (length (?C 0), sphere_mesh numSlices radius s ps ts (?C 0))" by simp
    show "0 \<le> numSlices" by fact
    show "numSlices \<le> INT_MAX" using n by (simp add: INT_MAX_def)
  next
    fix k t
    assume k: "0 \<le> k" "k < numSlices" and t: "?I k t"
    have j: "nat k < nat numSlices" using k by simp
    have len: "int (length (?C (nat k))) = (int i * numSlices + int (nat k)) * 6"
      using n by (simp add: length_cells_upto [where k = 6] algebra_simps)
    have Suc: "nat (k + 1) = Suc (nat k)" using k by simp
    from sphere_cell_ok [OF n i j req len, of radius ps ts] k
    show "\<exists>t'. sphere_cell numSlices (int i) k t = Inr t' \<and> ?I (k + 1) t'"
      by (simp add: t Suc cells_upto_Suc)
  qed
  then show ?thesis
    by (simp add: cells_upto_0 cells_upto_row)
qed

lemma sphere_cell_grid:
  assumes n: "0 \<le> numSlices" "numSlices \<le> 26755"
    and req: "indices s \<noteq> None"
  shows "for_lt 0 (numSlices div 2) (\<lambda>i. for_lt 0 numSlices (\<lambda>j. sphere_cell numSlices i j))
           (0, sphere_mesh numSlices radius s ps ts [])
         = Inr (length (rows (sphere_tri numSlices) (nat (numSlices div 2)) (nat numSlices)),
            sphere_mesh numSlices radius s ps ts
              (rows (sphere_tri numSlices) (nat (numSlices div 2)) (nat numSlices)))"
proof -
  let ?R = "\<lambda>k. rows (sphere_tri numSlices) k (nat numSlices)"
  let ?I = "\<lambda>k ks. ks = (length (?R (nat k)), sphere_mesh numSlices radius s ps ts (?R (nat k)))"
  have "\<exists>t. for_lt 0 (numSlices div 2) (\<lambda>i. for_lt 0 numSlices (\<lambda>j. sphere_cell numSlices i j))
           (0, sphere_mesh numSlices radius s ps ts []) = Inr t \<and> ?I (numSlices div 2) t"
  proof (rule for_lt_rule [where I = ?I])
    show "?I 0 (0, sphere_mesh numSlices radius s ps ts [])" by (simp add: rows_0)
    show "0 \<le> numSlices div 2" using n by simp
    show "numSlices div 2 \<le> INT_MAX" using n by (simp add: INT_MAX_def)
  next
    fix k t
    assume k: "0 \<le> k" "k < numSlices div 2" and t: "?I k t"
    have i: "nat k < nat (numSlices div 2)" using k by simp
    have Suc: "nat (k + 1) = Suc (nat k)" using k by simp
    from sphere_cell_row [OF n i req, of radius ps ts] k
    show "\<exists>t'. for_lt 0 numSlices (\<lambda>j. sphere_cell numSlices k j) t = Inr t' \<and> ?I (k + 1) t'"
      by (simp add: t Suc)
  qed
  then show ?thesis by simp
qed

lemma sdiv_2_nonneg: "0 \<le> (n::int) \<Longrightarrow> n sdiv 2 = n div 2"
  by (simp add: signed_divide_int_def sgn_if)

lemma sphere_counts:
  assumes "0 \<le> n" and "n \<le> 26755"
  shows "div_int n 2 = Inr (n div 2)"
    and "add_int (n div 2) 1 = Inr (n div 2 + 1)"
    and "add_int n 1 = Inr (n + 1)"
    and "mul_int (n div 2 + 1) (n + 1) = Inr ((n div 2 + 1) * (n + 1))"
    and "mul_int (n div 2) n = Inr (n div 2 * n)"
    and "mul_int (n div 2 * n) 6 = Inr (n div 2 * n * 6)"
proof -
  have p: "0 \<le> n div 2" "n div 2 \<le> 13377" using assms by auto
  have a: "(n div 2 + 1) * (n + 1) \<le> 13378 * 26756"
    using assms p by (intro mult_mono) auto
  have b: "n div 2 * n \<le> 13377 * 26755"
    using assms p by (intro mult_mono) auto
  have c: "0 \<le> n div 2 * n" "0 \<le> (n div 2 + 1) * (n + 1)" using assms p by auto
  show "div_int n 2 = Inr (n div 2)"
    using assms p by (simp add: div_int_def sdiv_2_nonneg cint_def INT_MIN_def INT_MAX_def)
  show "add_int (n div 2) 1 = Inr (n div 2 + 1)"
    using p by (simp add: add_int_def cint_def INT_MIN_def INT_MAX_def)
  show "add_int n 1 = Inr (n + 1)"
    using assms by (simp add: add_int_def cint_def INT_MIN_def INT_MAX_def)
  show "mul_int (n div 2 + 1) (n + 1) = Inr ((n div 2 + 1) * (n + 1))"
    using a c by (simp add: mul_int_def cint_def INT_MIN_def INT_MAX_def)
  show "mul_int (n div 2) n = Inr (n div 2 * n)"
    using b c by (simp add: mul_int_def cint_def INT_MIN_def INT_MAX_def)
  have "n div 2 * n * 6 \<le> 2147483647"
    using b by linarith
  moreover have "- 2147483648 \<le> n div 2 * n * 6"
    using c(1) by linarith
  ultimately show "mul_int (n div 2 * n) 6 = Inr (n div 2 * n * 6)"
    unfolding mul_int_def cint_def INT_MIN_def INT_MAX_def by (simp only: conj_commute simp_thms if_True)
qed

lemma sphere_alloc_eq:
  "sphere_alloc ((n div 2 + 1) * (n + 1)) (n div 2 * n * 6) s = sphere_mesh n radius s [] [] []"
proof (cases s)
  case (fields a b c d)
  then show ?thesis
    by (cases a; cases b; cases c; cases d)
      (simp_all add: sphere_alloc_def Let_def sphere_mesh_def filled_def prefix_cells_Nil malloc_def)
qed

lemma esGenSphere_result:
  assumes n: "0 \<le> numSlices" "numSlices \<le> 26755"
    and valid: "normals s \<noteq> None \<longrightarrow> vertices s \<noteq> None"
  shows "esGenSphere lm numSlices radius s =
     Inr (numSlices div 2 * numSlices * 6,
          \<lparr>vertices = filled (vertices s) (map Some (sphere_positions lm numSlices radius)),
           normals = filled (normals s)
             (map (\<lambda>p. Some (fdiv p radius)) (sphere_positions lm numSlices radius)),
           texCoords = filled (texCoords s) (map Some (sphere_texcoords numSlices)),
           indices = filled (indices s) (map Some (sphere_indices numSlices))\<rparr>)"
proof -
  let ?P = "sphere_positions lm numSlices radius"
  let ?T = "sphere_texcoords numSlices"
  let ?X = "sphere_indices numSlices"
  have w: "int (nat (numSlices + 1)) = numSlices + 1" "int (nat (numSlices div 2 + 1)) = numSlices div 2 + 1"
    "int (nat numSlices) = numSlices" "int (nat (numSlices div 2)) = numSlices div 2"
    using n by auto
  have lP: "length ?P = 3 * nat ((numSlices div 2 + 1) * (numSlices + 1))"
    using n by (simp add: sphere_positions_def length_rows [where k = 3] nat_mult_distrib)
  have lT: "length ?T = 2 * nat ((numSlices div 2 + 1) * (numSlices + 1))"
    using n by (simp add: sphere_texcoords_def length_rows [where k = 2] nat_mult_distrib)
  have lX: "length ?X = nat (numSlices div 2 * numSlices * 6)"
    using n by (simp add: sphere_indices_def length_rows [where k = 6] nat_mult_distrib)
  have fin: "sphere_mesh numSlices radius s ?P ?T ?X =
          \<lparr>vertices = filled (vertices s) (map Some ?P),
           normals = filled (normals s) (map (\<lambda>p. Some (fdiv p radius)) ?P),
           texCoords = filled (texCoords s) (map Some ?T),
           indices = filled (indices s) (map Some ?X)\<rparr>"
    by (simp add: sphere_mesh_def prefix_cells_full lP lT lX comp_def)
  have nox: "sphere_mesh numSlices radius s ?P ?T [] = sphere_mesh numSlices radius s ?P ?T ?X"
    if "indices s = None"
    using that by (simp add: sphere_mesh_def filled_def)
  have ix: "indices (sphere_mesh numSlices radius s ps ts xs) \<noteq> None \<longleftrightarrow> indices s \<noteq> None" for ps ts xs
    by (simp add: sphere_mesh_def filled_def)
  have V: "for_lt 0 (numSlices div 2 + 1) (\<lambda>i. for_lt 0 (numSlices + 1)
               (\<lambda>j. sphere_vertex lm numSlices (numSlices div 2) radius (angle_step numSlices) i j))
             (sphere_mesh numSlices radius s [] [] []) = Inr (sphere_mesh numSlices radius s ?P ?T [])"
    unfolding sphere_positions_def sphere_texcoords_def
    by (rule sphere_vertex_grid [OF n valid])
  have X: "for_lt 0 (numSlices div 2) (\<lambda>i. for_lt 0 numSlices (\<lambda>j. sphere_cell numSlices i j))
             (0, sphere_mesh numSlices radius s ?P ?T [])
           = Inr (length ?X, sphere_mesh numSlices radius s ?P ?T ?X)"
    if "indices s \<noteq> None"
    unfolding sphere_indices_def
    by (rule sphere_cell_grid [OF n that])
  have "esGenSphere lm numSlices radius s =
          bindR (if indices s \<noteq> None then
                   bindR (for_lt 0 (numSlices div 2) (\<lambda>i. for_lt 0 numSlices
                            (\<lambda>j. sphere_cell numSlices i j))
                            (0, sphere_mesh numSlices radius s ?P ?T [])) (\<lambda>ks. Inr (snd ks))
                 else Inr (sphere_mesh numSlices radius s ?P ?T [])) (\<lambda>s.
          Inr (numSlices div 2 * numSlices * 6, s))"
    unfolding esGenSphere_def
    by (simp only: sphere_counts [OF n] bindR_Inr Let_def sphere_alloc_eq [where radius = radius]
          angle_step_def [symmetric] V ix)
  also have "\<dots> = Inr (numSlices div 2 * numSlices * 6, sphere_mesh numSlices radius s ?P ?T ?X)"
    by (cases "indices s = None") (simp_all add: X nox)
  finally show ?thesis by (simp only: fin)
qed

lemma esGenSphere_overflow:
  assumes "26755 < numSlices"
  shows "esGenSphere lm numSlices radius s = Inl SignedOverflow"
proof -
  have d: "numSlices sdiv 2 = numSlices div 2"
    using assms by (simp add: sdiv_2_nonneg)
  have "13378 \<le> numSlices div 2" using assms by simp
  then have "13378 * 26756 \<le> numSlices div 2 * numSlices"
    using assms by (intro mult_mono) auto
  then have big: "\<not> numSlices div 2 * numSlices * 6 \<le> INT_MAX"
    by (simp add: INT_MAX_def)
  show ?thesis
    using big
    by (simp add: esGenSphere_def div_int_def add_int_def mul_int_def cint_def d bindR_def
          split: sum.splits)
qed

lemma for_lt_no_rows:
  assumes "w \<le> 0" and "p1 \<le> 1"
  shows "for_lt 0 p1 (\<lambda>i. for_lt 0 w (f i)) s = Inr s"
proof (cases "p1 \<le> 0")
  case True
  then show ?thesis by (simp add: for_lt_done)
next
  case False
  with assms have p1: "p1 = 1" by simp
  have "for_lt 0 1 (\<lambda>i. for_lt 0 w (f i)) s = for_lt (0 + 1) 1 (\<lambda>i. for_lt 0 w (f i)) s"
    by (rule for_lt_step) (simp_all add: INT_MAX_def for_lt_done assms)
  then show ?thesis by (simp add: p1 for_lt_done)
qed

lemma sdiv_2_neg: "(n::int) < 0 \<Longrightarrow> n sdiv 2 \<le> 0"
  by (simp add: signed_divide_int_def sgn_if)

lemma esGenSphere_negative:
  assumes "numSlices < 0"
  shows "esGenSphere lm numSlices radius s = Inl SignedOverflow \<or>
         esGenSphere lm numSlices radius s =
           Inr (numSlices sdiv 2 * numSlices * 6,
                sphere_alloc ((numSlices sdiv 2 + 1) * (numSlices + 1))
                  (numSlices sdiv 2 * numSlices * 6) s)"
proof -
  have np: "numSlices sdiv 2 \<le> 0" using assms by (rule sdiv_2_neg)
  have v: "for_lt 0 (numSlices sdiv 2 + 1) (\<lambda>i. for_lt 0 (numSlices + 1) (f i)) t = Inr t" for f t
    using np assms by (intro for_lt_no_rows) auto
  have x: "for_lt 0 (numSlices sdiv 2) g ks = Inr ks" for g ks
    using np by (simp add: for_lt_done)
  show ?thesis
    by (simp add: esGenSphere_def div_int_def add_int_def mul_int_def cint_def bindR_def
          Let_def v x split: sum.splits)
qed

text \<open>From \<open>-26755\<close> slices on the counts fit; below, the index count does not.\<close>

lemma sdiv_2_neg_eq: "(n::int) < 0 \<Longrightarrow> n sdiv 2 = - ((- n) div 2)"
  by (simp add: signed_divide_int_def sgn_if)

lemma sphere_counts_neg:
  assumes "- 26755 \<le> n" and "n < 0"
  shows "div_int n 2 = Inr (n sdiv 2)"
    and "add_int (n sdiv 2) 1 = Inr (n sdiv 2 + 1)"
    and "add_int n 1 = Inr (n + 1)"
    and "mul_int (n sdiv 2 + 1) (n + 1) = Inr ((n sdiv 2 + 1) * (n + 1))"
    and "mul_int (n sdiv 2) n = Inr (n sdiv 2 * n)"
    and "mul_int (n sdiv 2 * n) 6 = Inr (n sdiv 2 * n * 6)"
proof -
  define p where "p = n sdiv 2"
  have p: "- 13377 \<le> p" "p \<le> 0" using assms by (auto simp: p_def sdiv_2_neg_eq)
  have "(- p) * (- n) \<le> 13377 * 26755"
    using assms p by (intro mult_mono) auto
  then have b: "p * n \<le> 13377 * 26755" by simp
  have c: "0 \<le> p * n" using assms p by (simp add: mult_nonpos_nonpos)
  have "\<bar>(p + 1) * (n + 1)\<bar> \<le> 13377 * 26755"
    unfolding abs_mult using assms p by (intro mult_mono) auto
  then have a: "(p + 1) * (n + 1) \<le> 13377 * 26755" "- (13377 * 26755) \<le> (p + 1) * (n + 1)"
    by linarith+
  show "div_int n 2 = Inr (n sdiv 2)"
    using assms p by (simp add: div_int_def cint_def INT_MIN_def INT_MAX_def p_def)
  show "add_int (n sdiv 2) 1 = Inr (n sdiv 2 + 1)"
    using p by (simp add: add_int_def cint_def INT_MIN_def INT_MAX_def p_def)
  show "add_int n 1 = Inr (n + 1)"
    using assms by (simp add: add_int_def cint_def INT_MIN_def INT_MAX_def)
  show "mul_int (n sdiv 2 + 1) (n + 1) = Inr ((n sdiv 2 + 1) * (n + 1))"
    using a by (simp add: mul_int_def cint_def INT_MIN_def INT_MAX_def p_def)
  show "mul_int (n sdiv 2) n = Inr (n sdiv 2 * n)"
    using b c by (simp add: mul_int_def cint_def INT_MIN_def INT_MAX_def p_def)
  have "p * n * 6 \<le> 2147483647" using b by linarith
  moreover have "- 2147483648 \<le> p * n * 6" using c by linarith
  ultimately show "mul_int (n sdiv 2 * n) 6 = Inr (n sdiv 2 * n * 6)"
    unfolding mul_int_def cint_def INT_MIN_def INT_MAX_def p_def
    by (simp only: conj_commute simp_thms if_True)
qed

lemma esGenSphere_negative_result:
  assumes "- 26755 \<le> numSlices" and "numSlices < 0"
  shows "esGenSphere lm numSlices radius s =
           Inr (numSlices sdiv 2 * numSlices * 6,
                sphere_alloc ((numSlices sdiv 2 + 1) * (numSlices + 1))
                  (numSlices sdiv 2 * numSlices * 6) s)"
proof -
  have np: "numSlices sdiv 2 \<le> 0" using assms(2) by (rule sdiv_2_neg)
  have v: "for_lt 0 (numSlices sdiv 2 + 1) (\<lambda>i. for_lt 0 (numSlices + 1) (f i)) t = Inr t" for f t
    using np assms by (intro for_lt_no_rows) auto
  have x: "for_lt 0 (numSlices sdiv 2) g ks = Inr ks" for g ks
    using np by (simp add: for_lt_done)
  show ?thesis
    unfolding esGenSphere_def
    by (simp add: sphere_counts_neg [OF assms] Let_def v x)
qed

lemma esGenSphere_overflow_neg:
  assumes "numSlices < - 26755"
  shows "esGenSphere lm numSlices radius s = Inl SignedOverflow"
proof -
  define p where "p = numSlices sdiv 2"
  have "13378 \<le> - p" using assms by (simp add: p_def sdiv_2_neg_eq)
  then have "13378 * 26756 \<le> (- p) * (- numSlices)"
    using assms by (intro mult_mono) auto
  then have big: "\<not> p * numSlices * 6 \<le> INT_MAX"
    by (simp add: INT_MAX_def)
  show ?thesis
    using big
    by (simp add: esGenSphere_def div_int_def add_int_def mul_int_def cint_def p_def bindR_def
          split: sum.splits)
qed

lemma esGenSphere_null_vertices:
  assumes n: "0 \<le> numSlices" "numSlices \<le> 26755"
    and "normals s \<noteq> None" and "vertices s = None"
  shows "esGenSphere lm numSlices radius s = Inl NullDeref"
proof -
  let ?s = "sphere_mesh numSlices radius s [] [] []"
  let ?a = "fdiv (fmul (f32_lit 2 1) ES_PI) (f32_of_int numSlices)"
  have f: "vertices ?s = None" "normals ?s \<noteq> None"
    using assms by (simp_all add: sphere_mesh_def filled_def)
  have body: "sphere_vertex lm numSlices (numSlices div 2) radius ?a 0 0 ?s = Inl NullDeref"
    using n f
    by (simp add: sphere_vertex_def sphere_normal_def add_int_def mul_int_def cint_def
          INT_MIN_def INT_MAX_def load_def)
  have inner: "for_lt 0 (numSlices + 1)
          (\<lambda>j. sphere_vertex lm numSlices (numSlices div 2) radius ?a 0 j) ?s = Inl NullDeref"
    by (rule for_lt_fault) (use n body in simp_all)
  have outer: "for_lt 0 (numSlices div 2 + 1) (\<lambda>i. for_lt 0 (numSlices + 1)
          (\<lambda>j. sphere_vertex lm numSlices (numSlices div 2) radius ?a i j)) ?s = Inl NullDeref"
    by (rule for_lt_fault) (use n inner in simp_all)
  show ?thesis
    unfolding esGenSphere_def
    by (simp only: sphere_counts [OF n] bindR_Inr Let_def sphere_alloc_eq [where radius = radius]
          outer bindR_Inl)
qed

lemma set_rows: "set (rows f m n) = (\<Union>i\<in>{..<m}. \<Union>j\<in>{..<n}. set (f i j))"
  by (simp add: rows_def atLeast0LessThan)

lemma uint_grid_vertex:
  assumes "0 \<le> n" and "n \<le> 26755" and "i \<le> nat (n div 2)" and "j \<le> nat n"
  shows "uint (grid_vertex n (int i) (int j)) = int i * (n + 1) + int j"
proof -
  note g = grid_bounds [OF assms]
  have "0 \<le> int i * (n + 1) + int j" using g(3) by simp
  moreover have "int i * (n + 1) + int j < 2 ^ 32" using g(1,2) by simp
  moreover have "uint (word_of_int v :: 32 word) = v" if "0 \<le> v" "v < 2 ^ 32" for v
    using that by (simp add: uint_word_of_int_eq take_bit_int_eq_self)
  ultimately show ?thesis
    unfolding grid_vertex_def by blast
qed

lemma sphere_indices_bound:
  assumes n: "0 \<le> n" "n \<le> 26755" and x: "x \<in> set (sphere_indices n)"
  shows "uint x < (n div 2 + 1) * (n + 1)"
proof -
  from x obtain i j where ij: "i < nat (n div 2)" "j < nat n" and xs: "x \<in> set (sphere_tri n i j)"
    by (auto simp: sphere_indices_def set_rows)
  have b: "uint (grid_vertex n (int i') (int j')) < (n div 2 + 1) * (n + 1)"
    if "i' \<le> nat (n div 2)" "j' \<le> nat n" for i' j'
    using uint_grid_vertex [OF n that] grid_bounds(1) [OF n that] by simp
  from ij have i1: "i \<le> nat (n div 2)" "Suc i \<le> nat (n div 2)"
    and j1: "j \<le> nat n" "Suc j \<le> nat n" by auto
  have s: "int i + 1 = int (Suc i)" "int j + 1 = int (Suc j)" by simp_all
  from xs show ?thesis
    unfolding sphere_tri_def s
    using b [OF i1(1) j1(1)] b [OF i1(2) j1(1)] b [OF i1(2) j1(2)] b [OF i1(1) j1(2)]
    by auto
qed

subsection \<open>Values of the literals\<close>

lemma f32_lit_values:
  "f32_lit 0 1 = Finite False 0 (- 149)"
  "f32_lit 1 1 = Finite False 8388608 (- 23)"
  "f32_lit 2 1 = Finite False 8388608 (- 22)"
  "f32_lit 5 10 = Finite False 8388608 (- 24)"
  "f32_lit 3 10 = Finite False 10066330 (- 25)"
  by (simp_all add: f32_lit_def round_to_f32_def bitlen.simps Let_def)

lemma ES_PI_value: "ES_PI = Finite False 13176795 (- 22)"
  by (simp add: ES_PI_def f32_lit_def round_to_f32_def bitlen.simps Let_def)

lemma fmul_one_values:
  "fmul (Finite False 0 (- 149)) (Finite False 8388608 (- 23)) = Finite False 0 (- 149)"
  "fmul (Finite False 8388608 (- 23)) (Finite False 8388608 (- 23)) = Finite False 8388608 (- 23)"
  "fmul (Finite False 10066330 (- 25)) (Finite False 8388608 (- 23)) = Finite False 10066330 (- 25)"
  "fmul (Finite True 10066330 (- 25)) (Finite False 8388608 (- 23)) = Finite True 10066330 (- 25)"
  by (simp_all add: fmul.simps round_to_f32_def bitlen.simps Let_def)

lemma arrowVerts_times_one: "map (\<lambda>p. fmul p (f32_lit 1 1)) arrowVerts = arrowVerts"
  by (simp add: arrowVerts_def ARROW_V1_def ARROW_V2_def ARROW_V3_def ARROW_V4_def
        f32_lit_values fmul_one_values del: One_nat_def)

lemma fmul_half_two:
  "fmul (Finite True 8388608 (- 24)) (Finite False 8388608 (- 22)) = Finite True 8388608 (- 23)"
  "fmul (Finite False 8388608 (- 24)) (Finite False 8388608 (- 22)) = Finite False 8388608 (- 23)"
  by (simp_all add: fmul.simps round_to_f32_def bitlen.simps Let_def)

lemma f32_of_int_values:
  "f32_of_int 0 = Finite False 0 (- 149)"
  "f32_of_int 4 = Finite False 8388608 (- 21)"
  by (simp_all add: f32_of_int_def round_to_f32_def bitlen.simps Let_def)

lemma angle_step_4: "angle_step 4 = Finite False 13176795 (- 23)"
  by (simp add: angle_step_def f32_lit_values ES_PI_value f32_of_int_values fmul.simps fdiv.simps
        round_to_f32_def bitlen.simps Let_def del: One_nat_def)

lemma fmul_zero_one_values:
  "fmul (Finite False 13176795 (- 23)) (Finite False 0 (- 149)) = Finite False 0 (- 149)"
  "fmul (Finite False 8388608 (- 23)) (Finite False 0 (- 149)) = Finite False 0 (- 149)"
  "fmul (Finite False 0 (- 149)) (Finite False 0 (- 149)) = Finite False 0 (- 149)"
  by (simp_all add: fmul.simps round_to_f32_def bitlen.simps Let_def)

lemma fmul_two_values:
  "fmul (Finite False 8388608 (- 22)) (Finite False 8388608 (- 23)) = Finite False 8388608 (- 22)"
  "fmul (Finite False 8388608 (- 22)) (Finite False 8388608 104) = Infinity False"
  "fmul (Finite False 8388608 (- 22)) (Finite False 1 (- 149)) = Finite False 2 (- 149)"
  "fmul (Finite False 8388608 (- 22)) (Finite True 8388608 103) = Finite True 8388608 104"
  "fmul (Finite False 8388608 (- 22)) (Finite True 0 (- 149)) = Finite True 0 (- 149)"
  by (simp_all add: fmul.simps round_to_f32_def bitlen.simps Let_def)

lemma fmul_half_values:
  "fmul (Finite True 8388608 (- 24)) (Infinity False) = Infinity True"
  "fmul (Finite True 8388608 (- 24)) (Finite False 8388608 104) = Finite True 8388608 103"
  "fmul (Finite True 8388608 (- 24)) (Finite False 2 (- 149)) = Finite True 1 (- 149)"
  "fmul (Finite True 8388608 (- 24)) (Finite False 1 (- 149)) = Finite True 0 (- 149)"
  by (simp_all add: fmul.simps round_to_f32_def bitlen.simps Let_def)

lemma fmul_boundary_values:
  "f32_lit 7 10 = Finite False 11744051 (- 24)"
  "fmul (Finite False 8388608 (- 22)) (Finite False 8388609 (- 149)) = Finite False 8388609 (- 148)"
  "fmul (Finite True 8388608 (- 24)) (Finite False 8388609 (- 148)) = Finite True 8388609 (- 149)"
  "fmul (Finite True 8388608 (- 24)) (Finite False 8388609 (- 149)) = Finite True 4194304 (- 149)"
  "fmul (Finite False 8388608 (- 22)) (Finite True 4194304 (- 149)) = Finite True 8388608 (- 149)"
  "fmul (Finite False 11744051 (- 24)) (Finite False 8388621 (- 148)) = Finite False 11744069 (- 149)"
  "fmul (Finite True 8388608 (- 24)) (Finite False 11744069 (- 149)) = Finite True 5872034 (- 149)"
  "fmul (Finite True 8388608 (- 24)) (Finite False 8388621 (- 148)) = Finite True 8388621 (- 149)"
  "fmul (Finite False 11744051 (- 24)) (Finite True 8388621 (- 149)) = Finite True 5872035 (- 149)"
  "fmul (Finite False 8388608 (- 24)) (Finite False 8388608 104) = Finite False 8388608 103"
  "fmul (Finite False 8388608 (- 22)) (Finite False 8388608 103) = Finite False 8388608 104"
  by (simp_all add: f32_lit_def fmul.simps round_to_f32_def bitlen.simps Let_def)

lemma inf_values:
  "fdiv (Infinity False) (Infinity False) = NaN"
  "fmul NaN (Infinity False) = NaN"
  "fmul (Infinity False) (Finite False 8388608 (- 23)) = Infinity False"
  by (simp_all add: fdiv.simps fmul.simps)

lemma sphere_values:
  "f32_of_int 1 = Finite False 8388608 (- 23)"
  "f32_of_int 2 = Finite False 8388608 (- 22)"
  "f32_lit 3 1 = Finite False 12582912 (- 22)"
  "fmul (Finite False 13176795 (- 23)) (Finite False 8388608 (- 23)) = Finite False 13176795 (- 23)"
  "fmul (Finite False 13176795 (- 23)) (Finite False 8388608 (- 22)) = Finite False 13176795 (- 22)"
  "fmul (Finite False 12582912 (- 22)) (Finite True 12303662 (- 47)) = Finite True 9227746 (- 45)"
  "fmul (Finite True 9227746 (- 45)) (Finite True 12303662 (- 48)) = Finite False 13534435 (- 70)"
  "fdiv (Finite False 13534435 (- 70)) (Finite False 12582912 (- 22)) = Finite False 9022957 (- 71)"
  "fmul (Finite False 9022957 (- 71)) (Finite False 12582912 (- 22)) = Finite False 13534436 (- 70)"
  by (simp_all add: f32_of_int_def f32_lit_def fmul.simps fdiv.simps round_to_f32_def bitlen.simps
        Let_def)

subsection \<open>Rounding\<close>

lemma bitlen_eq: "2 ^ k \<le> n \<Longrightarrow> n < 2 ^ Suc k \<Longrightarrow> bitlen n = Suc k"
proof (induction k arbitrary: n)
  case 0
  then have "n = 1" by simp
  then show ?case by (simp add: bitlen.simps)
next
  case (Suc k)
  have "2 ^ k \<le> n div 2" "n div 2 < 2 ^ Suc k"
    using Suc.prems by auto
  from Suc.IH [OF this] Suc.prems show ?case
    by (subst bitlen.simps) auto
qed

lemma bitlen_bounds: "0 < n \<Longrightarrow> 2 ^ (bitlen n - 1) \<le> n \<and> n < 2 ^ bitlen n"
proof (induction n rule: bitlen.induct)
  case (1 n)
  show ?case
  proof (cases "n div 2 = 0")
    case True
    with 1 have "n = 1" by linarith
    then show ?thesis by (simp add: bitlen.simps)
  next
    case False
    with 1 have IH: "2 ^ (bitlen (n div 2) - 1) \<le> n div 2" "n div 2 < 2 ^ bitlen (n div 2)"
      by auto
    have pos: "0 < bitlen (n div 2)"
      using False by (subst bitlen.simps) simp
    have b: "bitlen n = Suc (bitlen (n div 2))"
      using 1 by (subst bitlen.simps) simp
    from pos obtain j where j: "bitlen (n div 2) = Suc j" by (cases "bitlen (n div 2)") auto
    from IH show ?thesis unfolding b j by auto
  qed
qed

lemma fmul_half:
  assumes "2 ^ 23 \<le> m" and "m < 2 ^ 24" and "- 148 \<le> e" and "e \<le> 105"
  shows "fmul (Finite s 8388608 (- 24)) (Finite a m e) = Finite (s \<noteq> a) m (e - 1)"
proof -
  have "2 ^ 46 \<le> 8388608 * m" "8388608 * m < 2 ^ Suc 46"
    using assms(1,2) by simp_all
  then have bl: "bitlen (8388608 * m) = 47"
    using bitlen_eq [of 46 "8388608 * m"] by simp
  have b1: "bitlen (Suc 0) = 1" by (simp add: bitlen.simps)
  have p: "(2::nat) ^ 46 \<le> 8388608 * m" using assms(1) by simp
  show ?thesis
    using assms p
    by (simp add: fmul.simps round_to_f32_def bl b1 Let_def max_def)
qed

lemma round_to_f32_unfold:
  "round_to_f32 sg num den ex =
     (if num = 0 then Finite sg 0 (- 149)
      else renorm (round_at sg num den (max (- 149) (ex + f32_log2 num den - 23) - ex))
             (max (- 149) (ex + f32_log2 num den - 23)))"
  unfolding round_to_f32_def f32_log2_def round_at_def renorm_def Let_def f32.case
  by (simp only: minus_diff_eq)

lemma bitlen_one: "bitlen (Suc 0) = Suc 0"
  by (simp add: bitlen.simps)

lemma f32_log2_den_one:
  assumes "0 < num"
  shows "f32_log2 num (Suc 0) = int (bitlen num) - 1"
proof -
  from bitlen_bounds [OF assms] have "2 ^ (bitlen num - 1) \<le> num" by simp
  moreover have "0 < bitlen num" using assms by (subst bitlen.simps) simp
  ultimately show ?thesis
    by (simp add: f32_log2_def bitlen_one Let_def nat_diff_distrib)
qed

lemma round_at_normal:
  assumes "0 < num" and "u = int (bitlen num) - 1 - 23"
    and "round_at sg num (Suc 0) u = Finite b m z"
  shows "2 ^ 23 \<le> m \<and> m \<le> 2 ^ 24"
proof -
  from bitlen_bounds [OF assms(1)]
  have lo: "2 ^ (bitlen num - 1) \<le> num" and hi: "num < 2 ^ bitlen num" by simp_all
  have pos: "0 < bitlen num" using assms(1) by (subst bitlen.simps) simp
  show ?thesis
  proof (cases "bitlen num \<le> 24")
    case True
    then have u: "nat u = 0" "nat (- u) = 24 - bitlen num" using assms(2) by auto
    have m: "m = num * 2 ^ (24 - bitlen num)"
      using assms(3) by (simp add: round_at_def Let_def u)
    have "(2::nat) ^ 23 = 2 ^ (bitlen num - 1) * 2 ^ (24 - bitlen num)"
      using True pos by (simp add: power_add [symmetric])
    also have "\<dots> \<le> num * 2 ^ (24 - bitlen num)"
      by (rule mult_le_mono1 [OF lo])
    finally have a: "2 ^ 23 \<le> num * 2 ^ (24 - bitlen num)" .
    have "num * 2 ^ (24 - bitlen num) \<le> 2 ^ bitlen num * 2 ^ (24 - bitlen num)"
      by (rule mult_le_mono1) (use hi in simp)
    also have "\<dots> = (2::nat) ^ 24"
      using True by (simp add: power_add [symmetric])
    finally have b: "num * 2 ^ (24 - bitlen num) \<le> 2 ^ 24" .
    from a b show ?thesis unfolding m by blast
  next
    case False
    then obtain j where j: "bitlen num = 24 + j" "0 < j"
      by (metis add_diff_inverse_nat not_le less_imp_le_nat zero_less_diff not_less)
    have u: "nat u = j" "nat (- u) = 0" using assms(2) j by auto
    define q where "q = num div 2 ^ j"
    have "2 ^ 23 * 2 ^ j \<le> num" using lo j by (simp add: power_add)
    then have q1: "2 ^ 23 \<le> q" unfolding q_def by (simp add: less_eq_div_iff_mult_less_eq)
    have "num < 2 ^ 24 * 2 ^ j" using hi j by (simp add: power_add)
    then have q2: "q < 2 ^ 24" unfolding q_def by (simp add: less_mult_imp_div_less)
    have "m = q \<or> m = q + 1"
      using assms(3) by (auto simp: round_at_def Let_def u q_def split: if_splits)
    with q1 q2 show ?thesis by auto
  qed
qed

lemma round_to_f32_sign:
  assumes "round_to_f32 sg num den ex = Finite b m e"
  shows "b = sg" and "round_to_f32 sg' num den ex = Finite sg' m e"
proof -
  define t where "t = max (- 149) (ex + f32_log2 num den - 23)"
  obtain m0 where x: "\<And>c. round_at c num den (t - ex) = Finite c m0 0"
    by (simp add: round_at_def Let_def)
  have u: "round_to_f32 c num den ex =
             (if num = 0 then Finite c 0 (- 149) else renorm (Finite c m0 0) t)" for c
    by (simp only: round_to_f32_unfold t_def [symmetric] x)
  from assms show "b = sg"
    by (simp add: u renorm_def split: if_splits)
  from assms show "round_to_f32 sg' num den ex = Finite sg' m e"
    by (simp add: u renorm_def split: if_splits)
qed

lemma round_to_f32_normal:
  assumes "round_to_f32 sg num (Suc 0) ex = Finite b m e" and "- 149 < e"
  shows "2 ^ 23 \<le> m \<and> m < 2 ^ 24 \<and> e \<le> 104"
proof -
  have nz: "0 < num"
  proof (rule ccontr)
    assume "\<not> 0 < num"
    then have "round_to_f32 sg num (Suc 0) ex = Finite sg 0 (- 149)"
      by (simp add: round_to_f32_def)
    with assms show False by simp
  qed
  define t where "t = max (- 149) (ex + f32_log2 num (Suc 0) - 23)"
  obtain m0 where x: "round_at sg num (Suc 0) (t - ex) = Finite sg m0 0"
    by (simp add: round_at_def Let_def)
  have orig: "Finite b m e =
      (if m0 = 2 ^ 24 then (if 104 < t + 1 then Infinity sg else Finite sg (2 ^ 23) (t + 1))
       else (if 104 < t then Infinity sg else Finite sg m0 t))"
    using assms(1) nz by (simp add: round_to_f32_unfold t_def [symmetric] x renorm_def)
  show ?thesis
  proof (cases "m0 = 2 ^ 24")
    case True
    with orig show ?thesis by (simp split: if_splits)
  next
    case False
    with orig have e: "e = t" "m = m0" "t \<le> 104" by (simp_all split: if_splits)
    with assms(2) have "t = ex + f32_log2 num (Suc 0) - 23"
      by (simp add: t_def max_def split: if_splits)
    then have "t - ex = int (bitlen num) - 1 - 23"
      using nz by (simp add: f32_log2_den_one)
    from round_at_normal [OF nz this x] False e show ?thesis by simp
  qed
qed

lemma bitlen_le: "n < 2 ^ k \<Longrightarrow> bitlen n \<le> k"
proof (cases "n = 0")
  case True
  then show ?thesis by (simp add: bitlen.simps)
next
  case False
  assume a: "n < 2 ^ k"
  from False bitlen_bounds [of n] have "2 ^ (bitlen n - 1) \<le> n" by simp
  from this a have "(2::nat) ^ (bitlen n - 1) < 2 ^ k" by (rule le_less_trans)
  then have "bitlen n - 1 < k" by (simp add: power_strict_increasing_iff)
  then show ?thesis by simp
qed

lemma bitlen_double: "0 < n \<Longrightarrow> bitlen (2 * n) = Suc (bitlen n)"
  by (subst bitlen.simps) simp

text \<open>Halving the number and doubling the numerator cancel.\<close>

lemma round_at_double: "round_at sg (2 * num) (Suc 0) (u + 1) = round_at sg num (Suc 0) u"
proof (cases "0 \<le> u")
  case True
  define j where "j = nat u"
  have u: "nat u = j" "nat (- u) = 0" "nat (u + 1) = Suc j" "nat (- (u + 1)) = 0" "nat (- u - 1) = 0"
    using True by (simp_all add: j_def)
  have q: "2 * num div (2 * 2 ^ j) = num div 2 ^ j" by simp
  have r: "2 * num mod (2 * 2 ^ j) = 2 * (num mod 2 ^ j)" by simp
  show ?thesis
    by (simp add: round_at_def Let_def u q r)
next
  case False
  then obtain i where i: "nat (- u) = Suc i" "nat (- (u + 1)) = i" "nat (- u - 1) = i"
    by (cases "nat (- u)") auto
  have u: "nat u = 0" "nat (u + 1) = 0" using False by simp_all
  show ?thesis
    by (simp add: round_at_def Let_def u i)
qed

lemma round_to_f32_double:
  "round_to_f32 sg (2 * num) (Suc 0) (ex - 1) = round_to_f32 sg num (Suc 0) ex"
proof (cases "num = 0")
  case True
  then show ?thesis by (simp add: round_to_f32_def)
next
  case False
  then have nz: "0 < num" "0 < 2 * num" by simp_all
  have lg: "f32_log2 (2 * num) (Suc 0) = f32_log2 num (Suc 0) + 1"
    using nz bitlen_double [of num] by (simp add: f32_log2_den_one)
  have t: "max (- 149) (ex - 1 + f32_log2 (2 * num) (Suc 0) - 23)
         = max (- 149) (ex + f32_log2 num (Suc 0) - 23)"
    by (simp add: lg)
  have d: "t - (ex - 1) = t - ex + 1" for t :: int by simp
  show ?thesis
    using False by (simp only: round_to_f32_unfold t d round_at_double) simp
qed

text \<open>One step of the exponent halves an even significand.\<close>

lemma round_at_even:
  assumes "round_at sg num (Suc 0) u = Finite sg (2 * i) 0"
  shows "round_at sg num (Suc 0) (u + 1) = Finite sg i 0"
proof (cases "0 < u")
  case True
  define j where "j = nat u"
  define q where "q = num div 2 ^ j"
  define r where "r = num mod 2 ^ j"
  have u: "nat u = j" "nat (- u) = 0" "nat (u + 1) = Suc j" "nat (- (u + 1)) = 0" "nat (- u - 1) = 0"
    using True by (simp_all add: j_def)
  have rl: "r < 2 ^ j" by (simp add: r_def)
  have s: "(2::nat) ^ Suc j = 2 ^ j * 2" by simp
  have "num div (2 ^ j * 2) = num div 2 ^ j div 2"
    by (rule div_mult2_eq)
  then have q': "num div 2 ^ Suc j = q div 2"
    unfolding s q_def .
  have "num mod (2 ^ j * 2) = 2 ^ j * (num div 2 ^ j mod 2) + num mod 2 ^ j"
    by (rule mod_mult2_eq)
  then have r': "num mod 2 ^ Suc j = 2 ^ j * (q mod 2) + r"
    unfolding s q_def r_def .
  have m: "2 ^ j < 2 * r \<or> (2 * r = 2 ^ j \<and> odd q) \<Longrightarrow> q + 1 = 2 * i"
    "\<not> (2 ^ j < 2 * r \<or> (2 * r = 2 ^ j \<and> odd q)) \<Longrightarrow> q = 2 * i"
    using assms by (auto simp: round_at_def Let_def u q_def r_def split: if_splits)
  show ?thesis
  proof (cases "2 ^ j < 2 * r \<or> (2 * r = 2 ^ j \<and> odd q)")
    case up: True
    with m have qi: "q + 1 = 2 * i" by blast
    then have o: "odd q" by presburger
    then have q2: "q mod 2 = 1" by presburger
    have qd: "q div 2 + 1 = i" using qi by presburger
    have rp: "0 < r" using up by (cases "r = 0") auto
    have c': "2 ^ Suc j < 2 * 2 ^ j + 2 * r" using rp by simp
    have r'': "num mod 2 ^ Suc j = 2 ^ j + r" unfolding r' q2 by simp
    have "round_at sg num (Suc 0) (u + 1) = Finite sg (q div 2 + 1) 0"
      by (simp add: round_at_def Let_def u q' r'' c' del: power_Suc)
    then show ?thesis by (simp only: qd)
  next
    case down: False
    with m have qi: "q = 2 * i" by blast
    then have q2: "q mod 2 = 0" and qd: "q div 2 = i" by simp_all
    from down qi have "2 * r \<le> 2 ^ j" by auto
    then have c': "\<not> 2 ^ Suc j < 2 * r" "2 * r \<noteq> 2 ^ Suc j" using rl by simp_all
    have r'': "num mod 2 ^ Suc j = r" unfolding r' q2 by simp
    have "round_at sg num (Suc 0) (u + 1) = Finite sg (q div 2) 0"
      by (simp add: round_at_def Let_def u q' r'' c' del: power_Suc)
    then show ?thesis by (simp only: qd)
  qed
next
  case False
  show ?thesis
  proof (cases "u = 0")
    case True
    with assms have "num = 2 * i" by (simp add: round_at_def Let_def)
    then show ?thesis using True by (simp add: round_at_def Let_def)
  next
    case F: False
    with False obtain k where k: "nat (- u) = Suc k" "nat (- (u + 1)) = k" "nat (- u - 1) = k"
      by (cases "nat (- u)") auto
    have u: "nat u = 0" "nat (u + 1) = 0" using False F by simp_all
    from assms have "num * 2 ^ k = i" by (simp add: round_at_def Let_def u k)
    then show ?thesis by (simp add: round_at_def Let_def u k)
  qed
qed

lemma round_to_f32_halve:
  assumes r: "round_to_f32 sg num (Suc 0) ex = Finite b m e" and h: "halves_exactly (Finite b m e)"
  shows "round_to_f32 sg num (Suc 0) (ex - 1)
         = (if - 148 \<le> e then Finite b m (e - 1) else Finite b (m div 2) (- 149))"
proof (cases "num = 0")
  case True
  with r show ?thesis by (auto simp: round_to_f32_def)
next
  case False
  then have nz: "0 < num" by simp
  define t where "t = max (- 149) (ex + f32_log2 num (Suc 0) - 23)"
  obtain m0 where x: "round_at sg num (Suc 0) (t - ex) = Finite sg m0 0"
    by (simp add: round_at_def Let_def)
  have orig: "Finite b m e =
      (if m0 = 2 ^ 24 then (if 104 < t + 1 then Infinity sg else Finite sg (2 ^ 23) (t + 1))
       else (if 104 < t then Infinity sg else Finite sg m0 t))"
    using r False by (simp add: round_to_f32_unfold t_def [symmetric] x renorm_def)
  show ?thesis
  proof (cases "- 148 \<le> t")
    case True
    then have t_eq: "t = ex + f32_log2 num (Suc 0) - 23"
      by (simp add: t_def max_def split: if_splits)
    have t': "max (- 149) (ex - 1 + f32_log2 num (Suc 0) - 23) = t - 1"
      using True t_eq by (simp add: max_def)
    have d: "t - 1 - (ex - 1) = t - ex" by simp
    have "round_to_f32 sg num (Suc 0) (ex - 1) = renorm (Finite sg m0 0) (t - 1)"
      using False by (simp only: round_to_f32_unfold t' d x if_False)
    also have "\<dots> = (if - 148 \<le> e then Finite b m (e - 1) else Finite b (m div 2) (- 149))"
      using orig True by (simp add: renorm_def split: if_splits)
    finally show ?thesis .
  next
    case F: False
    have "- 149 \<le> t" by (simp add: t_def)
    with F have t: "t = - 149" by simp
    then have le: "ex + f32_log2 num (Suc 0) - 23 \<le> - 149"
      by (simp add: t_def max_def split: if_splits)
    have t': "max (- 149) (ex - 1 + f32_log2 num (Suc 0) - 23) = - 149"
      using le by (simp add: max_def)
    have d: "- 149 - (ex - 1) = (t - ex) + 1" using t by simp
    have u: "round_to_f32 sg num (Suc 0) (ex - 1)
             = renorm (round_at sg num (Suc 0) (t - ex + 1)) (- 149)"
      using False by (simp only: round_to_f32_unfold t' d if_False)
    show ?thesis
    proof (cases "m0 = 2 ^ 24")
      case True
      have "round_at sg num (Suc 0) (t - ex) = Finite sg (2 * 2 ^ 23) 0"
        using x True by simp
      from round_at_even [OF this]
      have "round_to_f32 sg num (Suc 0) (ex - 1) = Finite sg (2 ^ 23) (- 149)"
        by (simp add: u renorm_def)
      then show ?thesis using orig True t by (simp split: if_splits)
    next
      case N: False
      with orig t have e: "e = - 149" "m = m0" "b = sg" by (simp_all split: if_splits)
      with h have ev: "even m0" and lt: "m0 < 2 ^ 24" by simp_all
      then have "round_at sg num (Suc 0) (t - ex) = Finite sg (2 * (m0 div 2)) 0"
        using x by simp
      from round_at_even [OF this] lt
      show ?thesis by (simp add: u renorm_def e)
    qed
  qed
qed

lemma round_to_f32_sign_inf:
  assumes "round_to_f32 sg num den ex = Infinity b"
  shows "round_to_f32 sg' num den ex = Infinity sg'"
proof -
  define t where "t = max (- 149) (ex + f32_log2 num den - 23)"
  obtain m0 where x: "\<And>c. round_at c num den (t - ex) = Finite c m0 0"
    by (simp add: round_at_def Let_def)
  have u: "round_to_f32 c num den ex =
             (if num = 0 then Finite c 0 (- 149) else renorm (Finite c m0 0) t)" for c
    by (simp only: round_to_f32_unfold t_def [symmetric] x)
  from assms show ?thesis
    by (simp add: u renorm_def split: if_splits)
qed

lemma round_to_f32_not_NaN: "round_to_f32 sg num den ex \<noteq> NaN"
proof -
  define t where "t = max (- 149) (ex + f32_log2 num den - 23)"
  obtain m0 where x: "round_at sg num den (t - ex) = Finite sg m0 0"
    by (simp add: round_at_def Let_def)
  show ?thesis
    by (simp add: round_to_f32_unfold t_def [symmetric] x renorm_def)
qed

lemma fmul_half_even:
  assumes "even m" and "m < 2 ^ 24"
  shows "fmul (Finite s 8388608 (- 24)) (Finite a m (- 149)) = Finite (s \<noteq> a) (m div 2) (- 149)"
proof (cases "m = 0")
  case True
  then show ?thesis by (simp add: fmul.simps round_to_f32_def)
next
  case False
  from assms(1) obtain i where i: "m = 2 * i" by (elim evenE)
  have pos: "0 < 8388608 * m" using False by simp
  have "8388608 * m < 2 ^ 47" using assms(2) by simp
  then have "bitlen (8388608 * m) \<le> 47" by (rule bitlen_le)
  then have lg: "f32_log2 (8388608 * m) (Suc 0) \<le> 46"
    using pos by (simp add: f32_log2_den_one)
  have t: "max (- 149) (- 24 + - 149 + f32_log2 (8388608 * m) (Suc 0) - 23) = - 149"
    using lg by (simp add: max_def)
  have "round_to_f32 (s \<noteq> a) (8388608 * m) (Suc 0) (- 24 + - 149)
        = renorm (round_at (s \<noteq> a) (8388608 * m) (Suc 0) (- 149 - (- 24 + - 149))) (- 149)"
    using pos by (simp only: round_to_f32_unfold t) simp
  also have "round_at (s \<noteq> a) (8388608 * m) (Suc 0) (- 149 - (- 24 + - 149)) = Finite (s \<noteq> a) i 0"
    by (simp add: round_at_def Let_def i)
  also have "renorm (Finite (s \<noteq> a) i 0) (- 149) = Finite (s \<noteq> a) i (- 149)"
    using assms(2) i by (simp add: renorm_def)
  finally show ?thesis by (simp add: fmul.simps i)
qed

lemma fmul_halved:
  assumes "halves_exactly (Finite a m e)"
  shows "fmul (Finite s 8388608 (- 24)) (Finite a m e)
         = (if - 148 \<le> e then Finite (s \<noteq> a) m (e - 1) else Finite (s \<noteq> a) (m div 2) (- 149))"
proof (cases "- 148 \<le> e")
  case True
  with assms have "2 ^ 23 \<le> m" "m < 2 ^ 24" "- 148 \<le> e" "e \<le> 105" by auto
  from fmul_half [OF this] True show ?thesis by simp
next
  case False
  with assms have "even m" "m < 2 ^ 24" "e = - 149" by auto
  with fmul_half_even [of m s a] False show ?thesis by simp
qed

lemma fmul_half_commute:
  assumes "halves_exactly x" and "halves_exactly (fmul k x)"
    and "overflows k x \<longrightarrow> overflows k (fmul (Finite False 8388608 (- 24)) x)"
  shows "fmul (Finite s 8388608 (- 24)) (fmul k x) = fmul k (fmul (Finite s 8388608 (- 24)) x)"
proof (cases x)
  case NaN
  then show ?thesis by (cases k) (simp_all add: fmul.simps)
next
  case (Infinity a)
  then show ?thesis by (cases k) (auto simp: fmul.simps)
next
  case x: (Finite a m e)
  define m2 where "m2 = (if - 148 \<le> e then m else m div 2)"
  define e2 where "e2 = (if - 148 \<le> e then e - 1 else - 149)"
  have half: "fmul (Finite c 8388608 (- 24)) (Finite a m e) = Finite (c \<noteq> a) m2 e2" for c
    using fmul_halved [OF assms(1) [unfolded x], of c] by (simp add: m2_def e2_def)
  have z: "m2 = 0 \<longleftrightarrow> m = 0"
    using assms(1) by (auto simp: x m2_def elim: evenE)
  show ?thesis
  proof (cases k)
    case NaN
    then show ?thesis by (simp add: x fmul.simps)
  next
    case (Infinity kb)
    show ?thesis
    proof (cases "m = 0")
      case True
      have "fmul k x = NaN"
        using True by (simp add: x Infinity fmul.simps)
      moreover have "fmul k (Finite (s \<noteq> a) m2 e2) = NaN"
        using True by (simp add: Infinity fmul.simps z)
      moreover have "fmul (Finite s 8388608 (- 24)) NaN = NaN"
        by (simp add: fmul.simps)
      ultimately show ?thesis
        unfolding x half by (simp only:)
    next
      case False
      have "fmul k x = Infinity (kb \<noteq> a)"
        using False by (simp add: x Infinity fmul.simps)
      moreover have "fmul k (Finite (s \<noteq> a) m2 e2) = Infinity (kb \<noteq> (s \<noteq> a))"
        using False by (simp add: Infinity fmul.simps z)
      moreover have "fmul (Finite s 8388608 (- 24)) (Infinity (kb \<noteq> a)) = Infinity (s \<noteq> (kb \<noteq> a))"
        by (simp add: fmul.simps)
      moreover have "(s \<noteq> (kb \<noteq> a)) = (kb \<noteq> (s \<noteq> a))" by auto
      ultimately show ?thesis
        unfolding x half by (simp only:)
    qed
  next
    case k: (Finite kb n f)
    have prod: "fmul k (Finite c m2 e2) = round_to_f32 (kb \<noteq> c) (n * m) (Suc 0) (f + e - 1)" for c
    proof (cases "- 148 \<le> e")
      case True
      then show ?thesis by (simp add: k fmul.simps m2_def e2_def algebra_simps)
    next
      case False
      with assms(1) have "even m" "e = - 149" by (auto simp: x)
      then obtain i where i: "m = 2 * i" by (elim evenE)
      have "round_to_f32 (kb \<noteq> c) (2 * (n * i)) (Suc 0) (f + e - 1)
            = round_to_f32 (kb \<noteq> c) (n * i) (Suc 0) (f + e)"
        by (rule round_to_f32_double)
      then show ?thesis
        using False \<open>e = - 149\<close> by (simp add: k fmul.simps m2_def e2_def i algebra_simps)
    qed
    have rhs: "fmul k (fmul (Finite s 8388608 (- 24)) x)
          = round_to_f32 (kb \<noteq> (s \<noteq> a)) (n * m) (Suc 0) (f + e - 1)"
      unfolding x half by (rule prod)
    have y: "fmul k x = round_to_f32 (kb \<noteq> a) (n * m) (Suc 0) (f + e)"
      by (simp add: k x fmul.simps algebra_simps)
    show ?thesis
    proof (cases "fmul k x")
      case NaN
      with y round_to_f32_not_NaN show ?thesis by metis
    next
      case (Infinity b)
      then have "overflows k x" by (simp add: overflows_def k x)
      with assms(3) have "\<not> is_finite (fmul k (fmul (Finite False 8388608 (- 24)) x))"
        by (simp add: overflows_def)
      then have "\<not> is_finite (round_to_f32 (kb \<noteq> (False \<noteq> a)) (n * m) (Suc 0) (f + e - 1))"
        unfolding x half prod .
      then obtain b' where "round_to_f32 (kb \<noteq> (False \<noteq> a)) (n * m) (Suc 0) (f + e - 1) = Infinity b'"
        using round_to_f32_not_NaN [of "kb \<noteq> (False \<noteq> a)" "n * m" "Suc 0" "f + e - 1"]
        by (cases "round_to_f32 (kb \<noteq> (False \<noteq> a)) (n * m) (Suc 0) (f + e - 1)") auto
      from round_to_f32_sign_inf [OF this]
      have "fmul k (fmul (Finite s 8388608 (- 24)) x) = Infinity (kb \<noteq> (s \<noteq> a))"
        unfolding rhs .
      moreover from round_to_f32_sign_inf [OF Infinity [unfolded y], of "kb \<noteq> a"]
      have "fmul k x = Infinity (kb \<noteq> a)" unfolding y .
      moreover have "fmul (Finite s 8388608 (- 24)) (Infinity (kb \<noteq> a)) = Infinity (s \<noteq> (kb \<noteq> a))"
        by (simp add: fmul.simps)
      moreover have "(s \<noteq> (kb \<noteq> a)) = (kb \<noteq> (s \<noteq> a))" by auto
      ultimately show ?thesis by (simp only:)
    next
      case (Finite b m' e')
      then have r: "round_to_f32 (kb \<noteq> a) (n * m) (Suc 0) (f + e) = Finite b m' e'"
        unfolding y .
      have b: "b = (kb \<noteq> a)" using round_to_f32_sign(1) [OF r] .
      have h: "halves_exactly (Finite b m' e')" using assms(2) unfolding Finite .
      define m3 where "m3 = (if - 148 \<le> e' then m' else m' div 2)"
      define e3 where "e3 = (if - 148 \<le> e' then e' - 1 else - 149)"
      from round_to_f32_halve [OF r h]
      have "round_to_f32 (kb \<noteq> a) (n * m) (Suc 0) (f + e - 1) = Finite b m3 e3"
        by (simp add: m3_def e3_def)
      from round_to_f32_sign(2) [OF this]
      have "round_to_f32 (kb \<noteq> (s \<noteq> a)) (n * m) (Suc 0) (f + e - 1)
            = Finite (kb \<noteq> (s \<noteq> a)) m3 e3" .
      then have "fmul k (fmul (Finite s 8388608 (- 24)) x) = Finite (kb \<noteq> (s \<noteq> a)) m3 e3"
        unfolding rhs .
      moreover have "fmul (Finite s 8388608 (- 24)) (fmul k x) = Finite (s \<noteq> b) m3 e3"
        unfolding Finite using fmul_halved [OF h, of s] by (simp add: m3_def e3_def)
      moreover have "(s \<noteq> b) = (kb \<noteq> (s \<noteq> a))" using b by auto
      ultimately show ?thesis by (simp only:)
    qed
  qed
qed

subsection \<open>Reading the grid data by position\<close>

lemma rows_first:
  assumes "0 < m" and "0 < n" and "length (f 0 0) = k"
  shows "take k (rows f m n) = f 0 0"
proof -
  from assms obtain m' n' where mn: "m = Suc m'" "n = Suc n'"
    by (cases m; cases n) auto
  have "[0..<Suc m'] = 0 # [Suc 0..<Suc m']" "[0..<Suc n'] = 0 # [Suc 0..<Suc n']"
    by (simp_all add: upt_conv_Cons)
  then show ?thesis
    using assms(3) by (simp add: rows_def mn del: upt_Suc)
qed

lemma concat_map_nth:
  assumes "\<And>x. x \<in> set xs \<Longrightarrow> length (g x) = k" and "j < length xs" and "c < k"
  shows "concat (map g xs) ! (k * j + c) = g (xs ! j) ! c"
  using assms
proof (induction xs arbitrary: j)
  case Nil
  then show ?case by simp
next
  case (Cons x xs)
  have lx: "length (g x) = k" using Cons.prems(1) by simp
  show ?case
  proof (cases j)
    case 0
    then show ?thesis using Cons.prems(3) lx by (simp add: nth_append)
  next
    case (Suc j')
    have "concat (map g xs) ! (k * j' + c) = g (xs ! j') ! c"
      using Cons.prems Suc by (intro Cons.IH) auto
    then show ?thesis
      using lx Suc by (simp add: nth_append)
  qed
qed

lemma rows_nth:
  assumes "\<And>i j. length (f i j) = k" and "i < m" and "j < n" and "c < k"
  shows "rows f m n ! (k * (i * n + j) + c) = f i j ! c"
proof -
  have r: "length (concat (map (f i') [0..<n])) = k * n" for i'
    using assms(1) by (simp add: length_concat_const [where k = k])
  have "k * j + c < k * n"
  proof -
    have "k * j + c < k * j + k" using assms(4) by simp
    also have "\<dots> = k * Suc j" by simp
    also have "\<dots> \<le> k * n" using assms(3) by (intro mult_le_mono2) simp
    finally show ?thesis .
  qed
  then have "rows f m n ! ((k * n) * i + (k * j + c)) = concat (map (f i) [0..<n]) ! (k * j + c)"
    unfolding rows_def
    using concat_map_nth [where g = "\<lambda>i. concat (map (f i) [0..<n])" and xs = "[0..<m]"
        and k = "k * n" and j = i and c = "k * j + c"] r assms(2)
    by simp
  also have "\<dots> = f i j ! c"
    using concat_map_nth [where g = "f i" and xs = "[0..<n]" and k = k and j = j and c = c] assms
    by simp
  finally show ?thesis by (simp add: algebra_simps)
qed

lemma sphere_positions_nth:
  assumes "0 \<le> numSlices" and "i \<le> nat (numSlices div 2)" and "j \<le> nat numSlices" and "c < 3"
  shows "sphere_positions lm numSlices radius ! (3 * (i * nat (numSlices + 1) + j) + c)
         = sphere_pos lm radius (angle_step numSlices) i j ! c"
  unfolding sphere_positions_def
  using assms by (intro rows_nth) auto

subsection \<open>The positions of the cube\<close>

lemma cubeVerts_half:
  "c \<in> set cubeVerts \<Longrightarrow> c = Finite False 8388608 (- 24) \<or> c = Finite True 8388608 (- 24)"
  by (auto simp: cubeVerts_def Let_def f32_lit_values)

lemma esGenCube_positions:
  "esGenCube scale s =
     Inr (36, s\<lparr>vertices := filled (vertices s) (map Some (cube_positions scale)),
                normals := filled (normals s) (map Some cubeNormals),
                texCoords := filled (texCoords s) (map Some cubeTex),
                indices := filled (indices s) (map Some cubeIndices)\<rparr>)"
  by (simp add: esGenCube_result cube_positions_def comp_def)

lemma cube_positions_scaled:
  assumes "halves_exactly scale" and "halves_exactly (fmul k scale)"
    and "overflows k scale \<longrightarrow> overflows k (fmul (f32_lit 5 10) scale)"
  shows "map (\<lambda>c. Some (fmul c (fmul k scale))) cubeVerts
       = map (\<lambda>c. Some (fmul k (fmul c scale))) cubeVerts"
proof -
  have "fmul c (fmul k scale) = fmul k (fmul c scale)"
    if "c \<in> set cubeVerts" for c
    using cubeVerts_half [OF that]
      fmul_half_commute [OF assms(1,2) assms(3) [unfolded f32_lit_values]] by auto
  then show ?thesis
    by (intro map_cong [OF refl]) simp
qed

lemma cubeVerts_entries:
  "c \<in> set cubeVerts \<Longrightarrow> c = f32_lit 5 10 \<or> c = fneg (f32_lit 5 10)"
  by (auto simp: cubeVerts_def Let_def)

lemma cube_positions_0: "cube_positions scale ! 0 = fmul (Finite True 8388608 (- 24)) scale"
  by (simp add: cube_positions_def cubeVerts_def Let_def f32_lit_values)

section \<open>The claims\<close>

text \<open>
  Claim C1, as amended.  For every \<open>slices\<close> from 4 to 26755 and every call that does not
  request normals without vertices, \<^verbatim>\<open>esGenSphere\<close> returns
  \<open>indexCount = (slices / 2) \<cdot> slices \<cdot> 6\<close>; every requested array is completely written
  and has \<open>vertexCount = (slices / 2 + 1) \<cdot> (slices + 1)\<close> entries of 3 (positions, normals)
  or 2 (texture coordinates) numbers; the index array, when requested, holds exactly
  \<open>indexCount\<close> values, each less than \<open>vertexCount\<close>.
\<close>

theorem esGenSphere_counts:
  assumes "4 \<le> numSlices" and "numSlices \<le> 26755"
    and "normals s \<noteq> None \<longrightarrow> vertices s \<noteq> None"
  shows "\<exists>s'. esGenSphere lm numSlices radius s = Inr (numSlices div 2 * numSlices * 6, s')
     \<and> (vertices s \<noteq> None \<longrightarrow> (\<exists>ps. vertices s' = Some (Array (map Some ps))
            \<and> int (length ps) = 3 * ((numSlices div 2 + 1) * (numSlices + 1))))
     \<and> (normals s \<noteq> None \<longrightarrow> (\<exists>ns. normals s' = Some (Array (map Some ns))
            \<and> int (length ns) = 3 * ((numSlices div 2 + 1) * (numSlices + 1))))
     \<and> (texCoords s \<noteq> None \<longrightarrow> (\<exists>ts. texCoords s' = Some (Array (map Some ts))
            \<and> int (length ts) = 2 * ((numSlices div 2 + 1) * (numSlices + 1))))
     \<and> (indices s \<noteq> None \<longrightarrow> (\<exists>xs. indices s' = Some (Array (map Some xs))
            \<and> int (length xs) = numSlices div 2 * numSlices * 6
            \<and> (\<forall>x\<in>set xs. uint x < (numSlices div 2 + 1) * (numSlices + 1))))"
proof -
  have n: "0 \<le> numSlices" "numSlices \<le> 26755" using assms by auto
  let ?P = "sphere_positions lm numSlices radius"
  have nn: "0 \<le> numSlices div 2" "0 \<le> numSlices div 2 + 1" "0 \<le> numSlices + 1"
    using n by auto
  have lP: "int (length ?P) = 3 * ((numSlices div 2 + 1) * (numSlices + 1))"
    using nn by (simp add: sphere_positions_def length_rows [where k = 3])
  have lN: "int (length (map (\<lambda>p. fdiv p radius) ?P)) = 3 * ((numSlices div 2 + 1) * (numSlices + 1))"
    using lP by simp
  have lT: "int (length (sphere_texcoords numSlices)) = 2 * ((numSlices div 2 + 1) * (numSlices + 1))"
    using nn by (simp add: sphere_texcoords_def length_rows [where k = 2])
  have lX: "int (length (sphere_indices numSlices)) = numSlices div 2 * numSlices * 6"
    using nn n by (simp add: sphere_indices_def length_rows [where k = 6])
  have bX: "\<forall>x\<in>set (sphere_indices numSlices). uint x < (numSlices div 2 + 1) * (numSlices + 1)"
    using sphere_indices_bound [OF n] by blast
  have mN: "map (\<lambda>p. Some (fdiv p radius)) ?P = map Some (map (\<lambda>p. fdiv p radius) ?P)"
    by simp
  show ?thesis
    unfolding esGenSphere_result [OF n assms(3)] mN
    using lP lN lT lX bX
    by (auto simp: filled_def simp del: map_map length_map)
qed

text \<open>The amended claim at \<open>slices = 4\<close>: 45 position components, 48 indices below 15.\<close>

theorem esGenSphere_counts_witness:
  "(4::int) \<le> 4 \<and> (4::int) \<le> 26755 \<and>
   (\<exists>s'. esGenSphere libm_small_angle 4 (f32_lit 1 1)
            \<lparr>vertices = Some NULL, normals = None, texCoords = None, indices = Some NULL\<rparr>
          = Inr (48, s')
        \<and> (\<exists>ps. vertices s' = Some (Array (map Some ps)) \<and> length ps = 45)
        \<and> (\<exists>xs. indices s' = Some (Array (map Some xs)) \<and> length xs = 48
              \<and> (\<forall>x\<in>set xs. uint x < 15)))"
  using esGenSphere_counts [of 4
      "\<lparr>vertices = Some NULL, normals = None, texCoords = None, indices = Some NULL\<rparr>"
      libm_small_angle "f32_lit 1 1"]
  by simp

text \<open>
  The claim as stated fails: at \<open>slices = 26756\<close> the product
  \<open>13378 \<cdot> 26756 \<cdot> 6 = 2147650608\<close> does not fit the type \<^verbatim>\<open>int\<close>, and a call that
  requests normals but not vertices reads through a null pointer before any index is
  written.
\<close>

theorem esGenSphere_counts_counterexample:
  "esGenSphere libm_small_angle 26756 (f32_lit 1 1)
     \<lparr>vertices = None, normals = None, texCoords = None, indices = Some NULL\<rparr>
     = Inl SignedOverflow
   \<and> esGenSphere libm_small_angle 4 (f32_lit 1 1)
     \<lparr>vertices = None, normals = Some NULL, texCoords = None, indices = Some NULL\<rparr>
     = Inl NullDeref"
  by (simp add: esGenSphere_overflow esGenSphere_null_vertices)

text \<open>
  Claim C2, as amended.  The call \<^verbatim>\<open>esGenSphere (4, 1.0, positions, null, null, indices)\<close>
  produces exactly 15 vertices (45 position components) and 48 indices, and the first
  vertex is \<open>(0, 1, 0)\<close>, for a C library with \<open>sin 0 = 0\<close> and \<open>cos 0 = 1\<close>.
\<close>

theorem esGenSphere_four_slices:
  assumes "sinf lm (f32_lit 0 1) = f32_lit 0 1" and "cosf lm (f32_lit 0 1) = f32_lit 1 1"
  shows "\<exists>vs xs. esGenSphere lm 4 (f32_lit 1 1)
       \<lparr>vertices = Some p, normals = None, texCoords = None, indices = Some q\<rparr>
     = Inr (48, \<lparr>vertices = Some (Array (map Some vs)), normals = None, texCoords = None,
                 indices = Some (Array (map Some xs))\<rparr>)
     \<and> length vs = 3 * 15 \<and> length xs = 48
     \<and> take 3 vs = [f32_lit 0 1, f32_lit 1 1, f32_lit 0 1]"
proof -
  let ?s = "\<lparr>vertices = Some p, normals = None, texCoords = None, indices = Some q\<rparr>"
  have r: "esGenSphere lm 4 (f32_lit 1 1) ?s
     = Inr (48, \<lparr>vertices = Some (Array (map Some (sphere_positions lm 4 (f32_lit 1 1)))),
                 normals = None, texCoords = None,
                 indices = Some (Array (map Some (sphere_indices 4)))\<rparr>)"
    using esGenSphere_result [of 4 ?s lm "f32_lit 1 1"] by (simp add: filled_def)
  have lv: "length (sphere_positions lm 4 (f32_lit 1 1)) = 3 * 15"
    by (simp add: sphere_positions_def length_rows [where k = 3])
  have lx: "length (sphere_indices 4) = 48"
    by (simp add: sphere_indices_def length_rows [where k = 6])
  have z: "sinf lm (Finite False 0 (- 149)) = Finite False 0 (- 149)"
    "cosf lm (Finite False 0 (- 149)) = Finite False 8388608 (- 23)"
    using assms by (simp_all add: f32_lit_values del: One_nat_def)
  have "take 3 (sphere_positions lm 4 (f32_lit 1 1))
        = sphere_pos lm (f32_lit 1 1) (angle_step 4) 0 0"
    unfolding sphere_positions_def by (rule rows_first) simp_all
  also have "\<dots> = [f32_lit 0 1, f32_lit 1 1, f32_lit 0 1]"
    by (simp add: sphere_pos_def angle_step_4 f32_of_int_values f32_lit_values
          fmul_zero_one_values fmul_one_values z del: One_nat_def)
  finally show ?thesis
    using r lv lx by blast
qed

text \<open>The amended claim with the stand-in for the C library.\<close>

theorem esGenSphere_four_slices_witness:
  "sinf libm_small_angle (f32_lit 0 1) = f32_lit 0 1
   \<and> cosf libm_small_angle (f32_lit 0 1) = f32_lit 1 1
   \<and> (\<exists>vs xs. esGenSphere libm_small_angle 4 (f32_lit 1 1)
         \<lparr>vertices = Some NULL, normals = None, texCoords = None, indices = Some NULL\<rparr>
       = Inr (48, \<lparr>vertices = Some (Array (map Some vs)), normals = None, texCoords = None,
                   indices = Some (Array (map Some xs))\<rparr>)
       \<and> length vs = 45 \<and> length xs = 48
       \<and> take 3 vs = [f32_lit 0 1, f32_lit 1 1, f32_lit 0 1])"
  using esGenSphere_four_slices [of libm_small_angle NULL NULL]
  by (simp add: libm_small_angle_def)

text \<open>
  The claim as stated fails in the index count: \<open>(4 / 2) \<cdot> 4 \<cdot> 6\<close> is 48, not 24.  The call
  returns 48 and the index array has 48 entries.
\<close>

theorem esGenSphere_four_slices_counterexample:
  "esGenSphere libm_small_angle 4 (f32_lit 1 1)
     \<lparr>vertices = Some NULL, normals = None, texCoords = None, indices = Some NULL\<rparr>
   = Inr (48, \<lparr>vertices = Some (Array (map Some (sphere_positions libm_small_angle 4 (f32_lit 1 1)))),
               normals = None, texCoords = None,
               indices = Some (Array (map Some (sphere_indices 4)))\<rparr>)
   \<and> length (sphere_indices 4) = 48"
  using esGenSphere_result [of 4
      "\<lparr>vertices = Some NULL, normals = None, texCoords = None, indices = Some NULL\<rparr>"
      libm_small_angle "f32_lit 1 1"]
  by (simp add: filled_def sphere_indices_def length_rows [where k = 6])

text \<open>
  Claim C3: the position array of \<^verbatim>\<open>esGenArrow\<close> should hold 12 complete vertices.
  The code allocates 36 numbers but its table \<^verbatim>\<open>arrowVerts\<close> has only 6 vertices (two of
  the four triples of the initialiser are commented out), so \<^verbatim>\<open>memcpy\<close> writes 18
  numbers and the loop scales 18 cells that were never written.  At scale 1 with
  positions, colours and indices requested:
\<close>

theorem esGenArrow_half_of_positions_uninitialised:
  "esGenArrow (f32_lit 1 1)
     \<lparr>vertices = Some NULL, normals = None, texCoords = None, indices = Some NULL,
      colors = Some NULL\<rparr>
   = Inr (12,
     \<lparr>vertices = Some (Array (map Some (ARROW_V1 @ ARROW_V4 @ ARROW_V2 @
                                        ARROW_V1 @ ARROW_V4 @ ARROW_V3) @ replicate 18 None)),
      normals = None, texCoords = None,
      indices = Some (Array (map Some arrowIndices)),
      colors = Some (Array (map Some arrowColors))\<rparr>)"
proof -
  have "map (\<lambda>p. Some (fmul p (f32_lit 1 1))) arrowVerts = map Some arrowVerts"
    using arg_cong [OF arrowVerts_times_one, of "map Some"] by (simp add: comp_def)
  then show ?thesis
    by (simp add: esGenArrow_result filled_def arrowVerts_def)
qed

text \<open>
  Claim C4, as amended.  For every scale \<^verbatim>\<open>esGenCube\<close> returns 36 over a mesh of 24
  vertices: the position array holds the 72 binary32 products \<open>c \<cdot> scale\<close> of the entries
  \<open>c = \<plusminus>0.5\<close> of the table \<^verbatim>\<open>cubeVerts\<close>, and the normals, the texture coordinates and
  the indices are the tables of the source, the same for every scale.  Multiplying the scale
  by \<open>k\<close> multiplies every position component by \<open>k\<close>, that is, the positions for the scale
  \<open>k \<cdot> scale\<close> are \<open>k\<close> times the positions for \<open>scale\<close>, whenever halving loses no bit of
  \<open>scale\<close> and of \<open>k \<cdot> scale\<close> (\<open>halves_exactly\<close>) and the product \<open>k \<cdot> scale\<close> does not
  overflow, or overflows together with \<open>k \<cdot> (0.5 \<cdot> scale)\<close>.
\<close>

theorem esGenCube_scaling:
  "\<exists>t t'. esGenCube scale s = Inr (36, t) \<and> esGenCube (fmul k scale) s = Inr (36, t')
     \<and> vertices t = filled (vertices s) (map (\<lambda>c. Some (fmul c scale)) cubeVerts)
     \<and> vertices t' = filled (vertices s) (map (\<lambda>c. Some (fmul c (fmul k scale))) cubeVerts)
     \<and> length cubeVerts = 3 * 24
     \<and> (\<forall>c\<in>set cubeVerts. c = f32_lit 5 10 \<or> c = fneg (f32_lit 5 10))
     \<and> normals t = filled (normals s) (map Some cubeNormals) \<and> length cubeNormals = 3 * 24
     \<and> texCoords t = filled (texCoords s) (map Some cubeTex) \<and> length cubeTex = 2 * 24
     \<and> indices t = filled (indices s) (map Some cubeIndices) \<and> length cubeIndices = 36
     \<and> normals t' = normals t \<and> texCoords t' = texCoords t \<and> indices t' = indices t
     \<and> (\<forall>scale'. \<exists>u. esGenCube scale' s = Inr (36, u)
            \<and> normals u = normals t \<and> texCoords u = texCoords t \<and> indices u = indices t)
     \<and> (halves_exactly scale \<and> halves_exactly (fmul k scale)
          \<and> (overflows k scale \<longrightarrow> overflows k (fmul (f32_lit 5 10) scale)) \<longrightarrow>
          vertices t' = filled (vertices s) (map (\<lambda>c. Some (fmul k (fmul c scale))) cubeVerts))"
proof -
  have a: "filled (vertices s) (map (\<lambda>c. Some (fmul c (fmul k scale))) cubeVerts)
         = filled (vertices s) (map (\<lambda>c. Some (fmul k (fmul c scale))) cubeVerts)"
    if "halves_exactly scale" "halves_exactly (fmul k scale)"
      "overflows k scale \<longrightarrow> overflows k (fmul (f32_lit 5 10) scale)"
    by (simp only: cube_positions_scaled [OF that])
  have b: "\<forall>c\<in>set cubeVerts. c = f32_lit 5 10 \<or> c = fneg (f32_lit 5 10)"
    using cubeVerts_entries by blast
  show ?thesis
    by (simp add: esGenCube_positions cube_positions_def comp_def length_cubeVerts
          length_cubeNormals length_cubeTex length_cubeIndices a b)
qed

text \<open>
  The amended claim at scale 1 and \<open>k = 2\<close>, with all four arrays requested: both halves
  are exact, nothing overflows, and the positions for the scale 2 are twice the positions
  for the scale 1.
\<close>

theorem esGenCube_scaling_witness:
  "halves_exactly (f32_lit 1 1) \<and> halves_exactly (fmul (f32_lit 2 1) (f32_lit 1 1))
   \<and> \<not> overflows (f32_lit 2 1) (f32_lit 1 1)
   \<and> fmul (f32_lit 2 1) (f32_lit 1 1) = f32_lit 2 1
   \<and> f32_lit 5 10 \<in> set cubeVerts \<and> fneg (f32_lit 5 10) \<in> set cubeVerts
   \<and> (\<exists>t t'. esGenCube (f32_lit 1 1)
           \<lparr>vertices = Some NULL, normals = Some NULL, texCoords = Some NULL, indices = Some NULL\<rparr>
         = Inr (36, t)
       \<and> esGenCube (f32_lit 2 1)
           \<lparr>vertices = Some NULL, normals = Some NULL, texCoords = Some NULL, indices = Some NULL\<rparr>
         = Inr (36, t')
       \<and> vertices t = Some (Array (map (\<lambda>c. Some (fmul c (f32_lit 1 1))) cubeVerts))
       \<and> vertices t'
           = Some (Array (map (\<lambda>c. Some (fmul (f32_lit 2 1) (fmul c (f32_lit 1 1)))) cubeVerts))
       \<and> length cubeVerts = 72
       \<and> normals t' = normals t \<and> texCoords t' = texCoords t \<and> indices t' = indices t)"
proof -
  have k: "fmul (f32_lit 2 1) (f32_lit 1 1) = f32_lit 2 1"
    by (simp add: f32_lit_values fmul_two_values del: One_nat_def)
  have h: "halves_exactly (f32_lit 1 1)" "halves_exactly (f32_lit 2 1)"
    "\<not> overflows (f32_lit 2 1) (f32_lit 1 1)"
    unfolding overflows_def k by (simp_all add: f32_lit_values del: One_nat_def)
  have m: "f32_lit 5 10 \<in> set cubeVerts" "fneg (f32_lit 5 10) \<in> set cubeVerts"
    by (simp_all add: cubeVerts_def Let_def)
  from esGenCube_scaling [of "f32_lit 1 1"
      "\<lparr>vertices = Some NULL, normals = Some NULL, texCoords = Some NULL, indices = Some NULL\<rparr>"
      "f32_lit 2 1"]
  show ?thesis
    unfolding k using h m by (auto simp: filled_def)
qed

text \<open>
  The claim as stated fails where a product is rounded or overflows; each of the three
  conditions of the amended claim is needed.  At scale \<open>2^127\<close> and \<open>k = 2\<close> the scale
  \<open>k \<cdot> scale\<close> is infinite and the first position component is \<open>-\<infinity>\<close>, while \<open>k\<close> times the
  first component for the scale \<open>2^127\<close> is \<open>-2^127\<close>.  At scale \<open>(2^23 + 1) \<cdot> 2^-149\<close>, a
  normal number whose half is not a binary32 number, and \<open>k = 2\<close> the first component is
  \<open>-(2^23 + 1) \<cdot> 2^-149\<close>, while \<open>k\<close> times the first component for the scale is \<open>-2^-126\<close>.
  At scale \<open>8388621 \<cdot> 2^-148\<close> and \<open>k = 0.7\<close> the half of the scale is exact but the half of
  \<open>k \<cdot> scale = 11744069 \<cdot> 2^-149\<close> is not: the first component is \<open>-5872034 \<cdot> 2^-149\<close>, while
  \<open>k\<close> times the first component for the scale is \<open>-5872035 \<cdot> 2^-149\<close>.
\<close>

theorem esGenCube_scaling_counterexample:
  "halves_exactly (Finite False 8388608 104)
   \<and> overflows (f32_lit 2 1) (Finite False 8388608 104)
   \<and> \<not> overflows (f32_lit 2 1) (fmul (f32_lit 5 10) (Finite False 8388608 104))
   \<and> fmul (f32_lit 2 1) (Finite False 8388608 104) = Infinity False
   \<and> esGenCube (fmul (f32_lit 2 1) (Finite False 8388608 104))
        \<lparr>vertices = Some NULL, normals = None, texCoords = None, indices = None\<rparr>
      = Inr (36, \<lparr>vertices = Some (Array (map Some (cube_positions (Infinity False)))),
                  normals = None, texCoords = None, indices = None\<rparr>)
   \<and> esGenCube (Finite False 8388608 104)
        \<lparr>vertices = Some NULL, normals = None, texCoords = None, indices = None\<rparr>
      = Inr (36, \<lparr>vertices = Some (Array (map Some (cube_positions (Finite False 8388608 104)))),
                  normals = None, texCoords = None, indices = None\<rparr>)
   \<and> cube_positions (Infinity False) ! 0 = Infinity True
   \<and> fmul (f32_lit 2 1) (cube_positions (Finite False 8388608 104) ! 0) = Finite True 8388608 104
   \<and> \<not> halves_exactly (Finite False 8388609 (- 149))
   \<and> fmul (f32_lit 2 1) (Finite False 8388609 (- 149)) = Finite False 8388609 (- 148)
   \<and> esGenCube (fmul (f32_lit 2 1) (Finite False 8388609 (- 149)))
        \<lparr>vertices = Some NULL, normals = None, texCoords = None, indices = None\<rparr>
      = Inr (36, \<lparr>vertices = Some (Array (map Some (cube_positions (Finite False 8388609 (- 148))))),
                  normals = None, texCoords = None, indices = None\<rparr>)
   \<and> esGenCube (Finite False 8388609 (- 149))
        \<lparr>vertices = Some NULL, normals = None, texCoords = None, indices = None\<rparr>
      = Inr (36, \<lparr>vertices = Some (Array (map Some (cube_positions (Finite False 8388609 (- 149))))),
                  normals = None, texCoords = None, indices = None\<rparr>)
   \<and> cube_positions (Finite False 8388609 (- 148)) ! 0 = Finite True 8388609 (- 149)
   \<and> fmul (f32_lit 2 1) (cube_positions (Finite False 8388609 (- 149)) ! 0)
       = Finite True 8388608 (- 149)
   \<and> halves_exactly (Finite False 8388621 (- 148))
   \<and> \<not> halves_exactly (fmul (f32_lit 7 10) (Finite False 8388621 (- 148)))
   \<and> fmul (f32_lit 7 10) (Finite False 8388621 (- 148)) = Finite False 11744069 (- 149)
   \<and> esGenCube (fmul (f32_lit 7 10) (Finite False 8388621 (- 148)))
        \<lparr>vertices = Some NULL, normals = None, texCoords = None, indices = None\<rparr>
      = Inr (36, \<lparr>vertices = Some (Array (map Some (cube_positions (Finite False 11744069 (- 149))))),
                  normals = None, texCoords = None, indices = None\<rparr>)
   \<and> esGenCube (Finite False 8388621 (- 148))
        \<lparr>vertices = Some NULL, normals = None, texCoords = None, indices = None\<rparr>
      = Inr (36, \<lparr>vertices = Some (Array (map Some (cube_positions (Finite False 8388621 (- 148))))),
                  normals = None, texCoords = None, indices = None\<rparr>)
   \<and> cube_positions (Finite False 11744069 (- 149)) ! 0 = Finite True 5872034 (- 149)
   \<and> fmul (f32_lit 7 10) (cube_positions (Finite False 8388621 (- 148)) ! 0)
       = Finite True 5872035 (- 149)"
  by (simp add: esGenCube_positions filled_def cube_positions_0 f32_lit_values fmul_two_values
        fmul_half_values fmul_boundary_values overflows_def del: One_nat_def)

text \<open>
  Claim C5, as amended.  For every \<open>slices\<close> from 4 to 26755 and every radius, when
  \<^verbatim>\<open>esGenSphere\<close> is asked for vertices and normals, each component of each normal is
  the binary32 quotient of the corresponding position component by the radius.
\<close>

theorem esGenSphere_normals:
  assumes "4 \<le> numSlices" and "numSlices \<le> 26755"
    and "vertices s \<noteq> None" and "normals s \<noteq> None"
  shows "\<exists>s' ps. esGenSphere lm numSlices radius s = Inr (numSlices div 2 * numSlices * 6, s')
     \<and> vertices s' = Some (Array (map Some ps))
     \<and> normals s' = Some (Array (map Some (map (\<lambda>p. fdiv p radius) ps)))
     \<and> int (length ps) = 3 * ((numSlices div 2 + 1) * (numSlices + 1))"
proof -
  have n: "0 \<le> numSlices" "numSlices \<le> 26755" using assms by auto
  have nn: "0 \<le> numSlices div 2 + 1" "0 \<le> numSlices + 1" using n by auto
  have l: "int (length (sphere_positions lm numSlices radius))
           = 3 * ((numSlices div 2 + 1) * (numSlices + 1))"
    using nn by (simp add: sphere_positions_def length_rows [where k = 3])
  show ?thesis
    using esGenSphere_result [OF n, of s lm radius] assms(3,4) l
    by (auto simp: filled_def comp_def)
qed

text \<open>The amended claim at \<open>slices = 4\<close> and radius 3.\<close>

theorem esGenSphere_normals_witness:
  "(4::int) \<le> 4 \<and> (4::int) \<le> 26755 \<and>
   (\<exists>s' ps. esGenSphere libm_small_angle 4 (f32_lit 3 1)
        \<lparr>vertices = Some NULL, normals = Some NULL, texCoords = None, indices = None\<rparr>
      = Inr (48, s')
      \<and> vertices s' = Some (Array (map Some ps))
      \<and> normals s' = Some (Array (map Some (map (\<lambda>p. fdiv p (f32_lit 3 1)) ps)))
      \<and> length ps = 45)"
  using esGenSphere_normals [of 4
      "\<lparr>vertices = Some NULL, normals = Some NULL, texCoords = None, indices = None\<rparr>"
      libm_small_angle "f32_lit 3 1"]
  by simp

text \<open>
  The claim as stated fails in four ways.  At 50000 slices the counts do not fit the type
  \<^verbatim>\<open>int\<close>.  Asked for normals only, the call reads through the null \<^verbatim>\<open>vertices\<close>
  pointer.  The quotient is rounded, so the product
  \<open>normal \<cdot> radius\<close> need not be the position: at radius 3 and 4 slices the \<open>z\<close> component
  of vertex 11 is \<open>13534435 \<cdot> 2^-70\<close>, its normal component \<open>9022957 \<cdot> 2^-71\<close>, and their
  product with the radius \<open>13534436 \<cdot> 2^-70\<close>.  And at an infinite radius the \<open>y\<close>
  component of vertex 0 is \<open>\<infinity>\<close>, its normal component \<open>\<infinity> / \<infinity>\<close> is not a number, and
  neither is the product.
\<close>

theorem esGenSphere_normals_counterexample:
  "esGenSphere libm_small_angle 50000 (f32_lit 1 1)
     \<lparr>vertices = Some NULL, normals = Some NULL, texCoords = None, indices = None\<rparr>
     = Inl SignedOverflow
   \<and> esGenSphere libm_small_angle 8 (f32_lit 1 1)
     \<lparr>vertices = None, normals = Some NULL, texCoords = None, indices = None\<rparr> = Inl NullDeref
   \<and> esGenSphere libm_quarter_turns 4 (f32_lit 3 1)
       \<lparr>vertices = Some NULL, normals = Some NULL, texCoords = None, indices = None\<rparr>
     = Inr (48, \<lparr>vertices = Some (Array (map Some (sphere_positions libm_quarter_turns 4 (f32_lit 3 1)))),
                 normals = Some (Array (map Some (sphere_normals libm_quarter_turns 4 (f32_lit 3 1)))),
                 texCoords = None, indices = None\<rparr>)
   \<and> sphere_positions libm_quarter_turns 4 (f32_lit 3 1) ! 35 = Finite False 13534435 (- 70)
   \<and> sphere_normals libm_quarter_turns 4 (f32_lit 3 1) ! 35 = Finite False 9022957 (- 71)
   \<and> fmul (sphere_normals libm_quarter_turns 4 (f32_lit 3 1) ! 35) (f32_lit 3 1)
       = Finite False 13534436 (- 70)
   \<and> esGenSphere libm_small_angle 4 (Infinity False)
       \<lparr>vertices = Some NULL, normals = Some NULL, texCoords = None, indices = None\<rparr>
     = Inr (48, \<lparr>vertices = Some (Array (map Some (sphere_positions libm_small_angle 4 (Infinity False)))),
                 normals = Some (Array (map Some (sphere_normals libm_small_angle 4 (Infinity False)))),
                 texCoords = None, indices = None\<rparr>)
   \<and> sphere_positions libm_small_angle 4 (Infinity False) ! 1 = Infinity False
   \<and> fmul (sphere_normals libm_small_angle 4 (Infinity False) ! 1) (Infinity False) = NaN"
proof -
  let ?s = "\<lparr>vertices = Some NULL, normals = Some NULL, texCoords = None, indices = None\<rparr>"
  have r: "esGenSphere lm 4 radius ?s
     = Inr (48, \<lparr>vertices = Some (Array (map Some (sphere_positions lm 4 radius))),
                 normals = Some (Array (map Some (sphere_normals lm 4 radius))),
                 texCoords = None, indices = None\<rparr>)" for lm radius
    using esGenSphere_result [of 4 ?s lm radius]
    by (simp add: filled_def sphere_normals_def comp_def)
  have len: "length (sphere_positions lm 4 radius) = 45" for lm radius
    by (simp add: sphere_positions_def length_rows [where k = 3])
  have nth: "sphere_normals lm 4 radius ! k = fdiv (sphere_positions lm 4 radius ! k) radius"
    if "k < 45" for lm radius k
    using that by (simp add: sphere_normals_def len)
  have p35: "sphere_positions libm_quarter_turns 4 (f32_lit 3 1) ! 35 = Finite False 13534435 (- 70)"
    using sphere_positions_nth [of 4 2 1 2 libm_quarter_turns "f32_lit 3 1"]
    by (simp add: sphere_pos_def angle_step_4 sphere_values libm_quarter_turns_def
          del: One_nat_def)
  have p1: "sphere_positions libm_small_angle 4 (Infinity False) ! 1 = Infinity False"
    using sphere_positions_nth [of 4 0 0 1 libm_small_angle "Infinity False"]
    by (simp add: sphere_pos_def libm_small_angle_def f32_lit_values inf_values
          del: One_nat_def)
  have a: "esGenSphere libm_small_angle 8 (f32_lit 1 1)
     \<lparr>vertices = None, normals = Some NULL, texCoords = None, indices = None\<rparr> = Inl NullDeref"
    by (simp add: esGenSphere_null_vertices)
  have o: "esGenSphere libm_small_angle 50000 (f32_lit 1 1) ?s = Inl SignedOverflow"
    by (simp add: esGenSphere_overflow)
  show ?thesis
    by (simp add: o a r p35 p35 [unfolded sphere_values(3)] p1 nth sphere_values inf_values
          del: One_nat_def)
qed

text \<open>
  Claim C6, as amended.  For every \<open>slices\<close> from 4 to 26755 and every call that requests
  the indices and does not request normals without vertices, the index array lists, for
  the grid cells \<open>(i, j)\<close> with \<open>0 \<le> i < slices / 2\<close> and \<open>0 \<le> j < slices\<close> in row-major
  order, the two triangles \<open>(i, j)\<close>, \<open>(i+1, j)\<close>, \<open>(i+1, j+1)\<close> and \<open>(i, j)\<close>,
  \<open>(i+1, j+1)\<close>, \<open>(i, j+1)\<close>, each vertex given by its row-major number
  \<open>i \<cdot> (slices + 1) + j\<close>, which fits 32 bits.
\<close>

theorem esGenSphere_index_list:
  assumes "4 \<le> numSlices" and "numSlices \<le> 26755"
    and "normals s \<noteq> None \<longrightarrow> vertices s \<noteq> None"
    and "indices s \<noteq> None"
  shows "\<exists>s'. esGenSphere lm numSlices radius s = Inr (numSlices div 2 * numSlices * 6, s')
     \<and> indices s' = Some (Array (map Some
          (concat (map (\<lambda>i. concat (map (\<lambda>j.
             [grid_vertex numSlices (int i) (int j),
              grid_vertex numSlices (int i + 1) (int j),
              grid_vertex numSlices (int i + 1) (int j + 1),
              grid_vertex numSlices (int i) (int j),
              grid_vertex numSlices (int i + 1) (int j + 1),
              grid_vertex numSlices (int i) (int j + 1)]) [0..<nat numSlices]))
            [0..<nat (numSlices div 2)]))))
     \<and> (\<forall>i\<in>{0..nat (numSlices div 2)}. \<forall>j\<in>{0..nat numSlices}.
           uint (grid_vertex numSlices (int i) (int j)) = int i * (numSlices + 1) + int j)"
proof -
  have n: "0 \<le> numSlices" "numSlices \<le> 26755" using assms by auto
  have "sphere_indices numSlices =
      concat (map (\<lambda>i. concat (map (\<lambda>j.
             [grid_vertex numSlices (int i) (int j),
              grid_vertex numSlices (int i + 1) (int j),
              grid_vertex numSlices (int i + 1) (int j + 1),
              grid_vertex numSlices (int i) (int j),
              grid_vertex numSlices (int i + 1) (int j + 1),
              grid_vertex numSlices (int i) (int j + 1)]) [0..<nat numSlices]))
            [0..<nat (numSlices div 2)])"
    by (simp add: sphere_indices_def rows_def sphere_tri_def [abs_def])
  then show ?thesis
    unfolding esGenSphere_result [OF n assms(3)]
    using assms(4) uint_grid_vertex [OF n]
    by (auto simp: filled_def)
qed

text \<open>The amended claim at \<open>slices = 6\<close>: 108 indices, beginning with 0, 7, 8 and 0, 8, 1.\<close>

theorem esGenSphere_index_list_witness:
  "(4::int) \<le> 6 \<and> (6::int) \<le> 26755 \<and>
   (\<exists>s' xs. esGenSphere libm_small_angle 6 (f32_lit 1 1)
            \<lparr>vertices = None, normals = None, texCoords = None, indices = Some NULL\<rparr>
          = Inr (108, s')
        \<and> indices s' = Some (Array xs) \<and> length xs = 108
        \<and> take 6 xs = [Some 0, Some 7, Some 8, Some 0, Some 8, Some 1])"
proof -
  have u: "[0..<6] = [0, 1, 2, 3, 4, 5]" "[0..<3] = [0, 1, 2]"
    by (simp_all add: upt_rec)
  show ?thesis
    using esGenSphere_index_list [of 6
      "\<lparr>vertices = None, normals = None, texCoords = None, indices = Some NULL\<rparr>"
      libm_small_angle "f32_lit 1 1"]
    by (auto simp: u grid_vertex_def)
qed

text \<open>
  The claim as stated fails: at \<open>slices = 30000\<close> the index count does not fit the type
  \<^verbatim>\<open>int\<close>, and with normals requested but not vertices the call stops at a null pointer
  before the index loop.
\<close>

theorem esGenSphere_index_list_counterexample:
  "esGenSphere libm_small_angle 30000 (f32_lit 1 1)
     \<lparr>vertices = None, normals = None, texCoords = None, indices = Some NULL\<rparr>
     = Inl SignedOverflow
   \<and> esGenSphere libm_small_angle 6 (f32_lit 1 1)
     \<lparr>vertices = None, normals = Some NULL, texCoords = Some NULL, indices = Some NULL\<rparr>
     = Inl NullDeref"
  by (simp add: esGenSphere_overflow esGenSphere_null_vertices)

text \<open>
  Claim C7, as amended.  A call of \<^verbatim>\<open>esGenCube\<close> or \<^verbatim>\<open>esGenArrow\<close> that requests only the
  indices returns its index table and leaves the other parameters null, for every scale.  A
  call of \<^verbatim>\<open>esGenSphere\<close> that requests only the indices does so for every \<open>slices\<close> from
  \<open>-26755\<close> to \<open>26755\<close>, the values for which the counts fit the type \<^verbatim>\<open>int\<close>: it returns
  with only the index array set, which has \<^verbatim>\<open>numIndices\<close> cells and, from 0 slices on, holds
  the index list.  In these calls no null pointer is read or written: that would be the
  fault \<open>NullDeref\<close>.
\<close>

theorem only_indices_requested:
  "(- 26755 \<le> numSlices \<and> numSlices \<le> 26755 \<longrightarrow>
      (\<exists>xs. esGenSphere lm numSlices radius
               \<lparr>vertices = None, normals = None, texCoords = None, indices = Some p\<rparr>
             = Inr (numSlices sdiv 2 * numSlices * 6,
                 \<lparr>vertices = None, normals = None, texCoords = None, indices = Some (Array xs)\<rparr>)
           \<and> int (length xs) = numSlices sdiv 2 * numSlices * 6
           \<and> (0 \<le> numSlices \<longrightarrow> xs = map Some (sphere_indices numSlices))))
   \<and> esGenCube scale \<lparr>vertices = None, normals = None, texCoords = None, indices = Some q\<rparr>
       = Inr (36, \<lparr>vertices = None, normals = None, texCoords = None,
                   indices = Some (Array (map Some cubeIndices))\<rparr>)
   \<and> esGenArrow scale
         \<lparr>vertices = None, normals = None, texCoords = None, indices = Some r, colors = None\<rparr>
       = Inr (12, \<lparr>vertices = None, normals = None, texCoords = None,
                   indices = Some (Array (map Some arrowIndices)), colors = None\<rparr>)"
proof -
  let ?s = "\<lparr>vertices = None, normals = None, texCoords = None, indices = Some p\<rparr>"
  let ?P = "\<lambda>xs. esGenSphere lm numSlices radius ?s
             = Inr (numSlices sdiv 2 * numSlices * 6,
                 \<lparr>vertices = None, normals = None, texCoords = None, indices = Some (Array xs)\<rparr>)
           \<and> int (length xs) = numSlices sdiv 2 * numSlices * 6
           \<and> (0 \<le> numSlices \<longrightarrow> xs = map Some (sphere_indices numSlices))"
  have nonneg: "?P (map Some (sphere_indices numSlices))"
    if n: "0 \<le> numSlices" "numSlices \<le> 26755"
  proof -
    have "0 \<le> numSlices div 2" using n by simp
    then have "int (length (sphere_indices numSlices)) = numSlices div 2 * numSlices * 6"
      using n by (simp add: sphere_indices_def length_rows [where k = 6])
    then show ?thesis
      using esGenSphere_result [OF n, of ?s lm radius] n
      by (simp add: filled_def sdiv_2_nonneg)
  qed
  have neg: "?P (replicate (nat (numSlices sdiv 2 * numSlices * 6)) None)"
    if n: "- 26755 \<le> numSlices" "numSlices < 0"
  proof -
    have "numSlices sdiv 2 \<le> 0" using n(2) by (rule sdiv_2_neg)
    then have "0 \<le> numSlices sdiv 2 * numSlices"
      using n(2) by (simp add: mult_nonpos_nonpos)
    then show ?thesis
      using esGenSphere_negative_result [OF n, of lm radius ?s] n(2)
      by (simp add: sphere_alloc_def malloc_def)
  qed
  have sphere: "\<exists>xs. ?P xs" if "- 26755 \<le> numSlices" "numSlices \<le> 26755"
    using nonneg neg that by (cases "numSlices < 0") (blast, force)
  show ?thesis
    using sphere by (simp add: esGenCube_result esGenArrow_result filled_def)
qed

text \<open>The sphere at \<open>slices = 4\<close> with only the indices requested.\<close>

theorem only_indices_requested_witness:
  "(- 26755::int) \<le> 4 \<and> (4::int) \<le> 26755 \<and> (0::int) \<le> 4
   \<and> esGenSphere libm_small_angle 4 (f32_lit 1 1)
       \<lparr>vertices = None, normals = None, texCoords = None, indices = Some NULL\<rparr>
     = Inr (48, \<lparr>vertices = None, normals = None, texCoords = None,
                 indices = Some (Array (map Some (sphere_indices 4)))\<rparr>)
   \<and> length (sphere_indices 4) = 48"
  using only_indices_requested [of 4 libm_small_angle "f32_lit 1 1" NULL]
  by (auto simp: signed_divide_int_def)

text \<open>
  The claim as stated fails for the sphere outside these bounds, which are sharp: at
  \<open>slices = 26756\<close> and at \<open>slices = -26756\<close> the index count \<open>13378 \<cdot> 26756 \<cdot> 6\<close> does
  not fit the type \<^verbatim>\<open>int\<close>, as at \<open>slices = 65536\<close>, and the call has no defined behaviour.
\<close>

theorem only_indices_requested_counterexample:
  "esGenSphere libm_small_angle 65536 (f32_lit 1 1)
     \<lparr>vertices = None, normals = None, texCoords = None, indices = Some NULL\<rparr>
     = Inl SignedOverflow
   \<and> esGenSphere libm_small_angle 26756 (f32_lit 1 1)
     \<lparr>vertices = None, normals = None, texCoords = None, indices = Some NULL\<rparr>
     = Inl SignedOverflow
   \<and> esGenSphere libm_small_angle (- 26756) (f32_lit 1 1)
     \<lparr>vertices = None, normals = None, texCoords = None, indices = Some NULL\<rparr>
     = Inl SignedOverflow"
  by (simp add: esGenSphere_overflow esGenSphere_overflow_neg)

text \<open>
  Claim C8.  The call \<^verbatim>\<open>esGenCube (2.0, positions, null, null, indices)\<close> produces
  \<^verbatim>\<open>positions[0..2] == (-1.0, -1.0, -1.0)\<close> and \<^verbatim>\<open>indices[0..2] == (0, 2, 1)\<close>.
\<close>

theorem esGenCube_scale_two:
  "\<exists>vs xs. esGenCube (f32_lit 2 1)
       \<lparr>vertices = Some p, normals = None, texCoords = None, indices = Some q\<rparr>
     = Inr (36, \<lparr>vertices = Some (Array vs), normals = None, texCoords = None,
                 indices = Some (Array xs)\<rparr>)
     \<and> take 3 vs = [Some (fneg (f32_lit 1 1)), Some (fneg (f32_lit 1 1)), Some (fneg (f32_lit 1 1))]
     \<and> take 3 xs = [Some 0, Some 2, Some 1]"
  by (simp add: esGenCube_result filled_def cubeVerts_def cubeIndices_def Let_def
        f32_lit_values fmul_half_two del: One_nat_def)

text \<open>
  Claim C9.  The normals of \<^verbatim>\<open>esGenSphere\<close> are computed from \<^verbatim>\<open>(*vertices)\<close>.  When the
  normals are requested and the vertices are not: from 0 to 26755 slices the call reads
  through the null pointer; and for no number of slices does the call return with a
  normal written (it returns only for negative \<open>slices\<close>, where no loop body runs and
  every cell of the normal array is still indeterminate).
\<close>

theorem esGenSphere_normals_need_vertices:
  assumes "normals s \<noteq> None" and "vertices s = None"
  shows "(0 \<le> numSlices \<and> numSlices \<le> 26755 \<longrightarrow>
            esGenSphere lm numSlices radius s = Inl NullDeref)
         \<and> (\<forall>n s'. esGenSphere lm numSlices radius s = Inr (n, s') \<longrightarrow>
               (\<exists>k. normals s' = Some (Array (replicate k None))))"
proof (intro conjI allI impI)
  assume "0 \<le> numSlices \<and> numSlices \<le> 26755"
  then show "esGenSphere lm numSlices radius s = Inl NullDeref"
    using assms by (intro esGenSphere_null_vertices) auto
next
  fix n s'
  assume r: "esGenSphere lm numSlices radius s = Inr (n, s')"
  have "numSlices < 0"
  proof (rule ccontr)
    assume "\<not> numSlices < 0"
    then have "esGenSphere lm numSlices radius s = Inl NullDeref
               \<or> esGenSphere lm numSlices radius s = Inl SignedOverflow"
      using esGenSphere_null_vertices [OF _ _ assms, of numSlices lm radius]
        esGenSphere_overflow [of numSlices lm radius s]
      by (cases "26755 < numSlices") auto
    with r show False by auto
  qed
  from esGenSphere_negative [OF this, of lm radius s] r
  have "s' = sphere_alloc ((numSlices sdiv 2 + 1) * (numSlices + 1))
                (numSlices sdiv 2 * numSlices * 6) s"
    by auto
  then show "\<exists>k. normals s' = Some (Array (replicate k None))"
    using assms by (auto simp: sphere_alloc_def Let_def malloc_def)
qed

text \<open>The null read at \<open>slices = 4\<close>, and a return with an unwritten array at \<open>slices = -7\<close>.\<close>

theorem esGenSphere_normals_need_vertices_witness:
  "esGenSphere libm_small_angle 4 (f32_lit 1 1)
     \<lparr>vertices = None, normals = Some NULL, texCoords = None, indices = None\<rparr> = Inl NullDeref
   \<and> (\<exists>n s'. esGenSphere libm_small_angle (- 7) (f32_lit 1 1)
          \<lparr>vertices = None, normals = Some NULL, texCoords = None, indices = None\<rparr> = Inr (n, s')
        \<and> (\<exists>k. normals s' = Some (Array (replicate k None))))"
proof -
  let ?s = "\<lparr>vertices = None, normals = Some NULL, texCoords = None, indices = None\<rparr>"
  note t = esGenSphere_normals_need_vertices [of ?s _ libm_small_angle "f32_lit 1 1"]
  have a: "esGenSphere libm_small_angle 4 (f32_lit 1 1) ?s = Inl NullDeref"
    using t [of 4] by simp
  have "esGenSphere libm_small_angle (- 7) (f32_lit 1 1) ?s = Inl SignedOverflow \<or>
        (\<exists>n s'. esGenSphere libm_small_angle (- 7) (f32_lit 1 1) ?s = Inr (n, s'))"
    using esGenSphere_negative [of "- 7" libm_small_angle "f32_lit 1 1" ?s] by auto
  moreover have "esGenSphere libm_small_angle (- 7) (f32_lit 1 1) ?s \<noteq> Inl SignedOverflow"
    by (simp add: esGenSphere_def div_int_def add_int_def mul_int_def cint_def INT_MIN_def
          INT_MAX_def signed_divide_int_def Let_def for_lt_done)
  ultimately obtain n s' where
    r: "esGenSphere libm_small_angle (- 7) (f32_lit 1 1) ?s = Inr (n, s')" by auto
  with t [of "- 7"] have "\<exists>k. normals s' = Some (Array (replicate k None))" by simp
  with a r show ?thesis by blast
qed

text \<open>
  Claim C10.  \<^verbatim>\<open>esGenArrow\<close> never allocates or writes through its \<^verbatim>\<open>normals\<close> and
  \<^verbatim>\<open>texCoords\<close> parameters: for every scale and whatever the caller passes in the five
  parameters, the call returns and the variables behind these two parameters hold what
  they held before.
\<close>

theorem esGenArrow_normals_texCoords_untouched:
  "\<exists>s'. esGenArrow scale s = Inr (12, s') \<and> normals s' = normals s \<and> texCoords s' = texCoords s"
  by (simp add: esGenArrow_result)

end
